theory Spec2Isabelle
  imports Main "HOL-Library.Char_ord" "HOL-Library.List_Lexorder" "HOL-Library.Multiset"
begin

section \<open>Data model of the BLS client (backend/src/services/blsClient.ts)\<close>

text \<open>
  JavaScript numbers are modelled as \<open>int\<close> (years, HTTP status codes, millisecond
  durations and timestamps, the retry ceiling); fractional values, NaN and the loss of
  precision of doubles are outside the model. Strings are \<open>string\<close>; the order used by
  \<open>Array.prototype.sort\<close> without a comparator (code units, a proper prefix first) is the
  lexicographic order of \<open>string\<close>, which agrees with it on ASCII identifiers.
\<close>

record BLSSeriesData =
  year :: string
  period :: string
  periodName :: string
  val :: string
  footnotes :: "(string \<times> string) list"

record BLSSeries =
  seriesID :: string
  data :: "BLSSeriesData list"

text \<open>
  The response envelope. \<open>message\<close> is \<open>None\<close> when the field is null or missing;
  \<open>Results_series\<close> is the value of \<open>data.Results?.series\<close>, \<open>None\<close> when \<open>Results\<close> or its
  \<open>series\<close> is null or missing.
\<close>

record BLSApiResponse =
  api_status :: string
  responseTime :: int
  message :: "string list option"
  Results_series :: "BLSSeries list option"

text \<open>\<open>BLSClientConfig\<close>: every field optional (\<open>None\<close>: the property is not set).\<close>

record BLSClientConfig =
  apiKey_opt :: "string option"
  baseUrl_opt :: "string option"
  enableCache_opt :: "bool option"
  cacheTTL_opt :: "int option"
  maxRetries_opt :: "int option"
  retryDelay_opt :: "int option"

text \<open>\<open>Required<BLSClientConfig>\<close>\<close>

record FullConfig =
  apiKey :: string
  baseUrl :: string
  enableCache :: bool
  cacheTTL :: int
  maxRetries :: int
  retryDelay :: int

record CacheEntry =
  cached_data :: "BLSSeries list"
  timestamp :: int

text \<open>What \<open>fetch\<close> is called with, and what it gives back.\<close>

record RequestBody =
  seriesid :: "string list"
  startyear :: "string option"
  endyear :: "string option"
  registrationkey :: "string option"

record Request =
  url :: string
  http_method :: string
  content_type :: string
  body :: RequestBody

text \<open>
  A \<open>Response\<close>: \<open>json\<close> is what \<open>response.json()\<close> gives, the parsed body (\<open>Inr\<close>) or
  the message of the error it rejects with (\<open>Inl\<close>).
\<close>

record Response =
  status :: int
  statusText :: string
  json :: "string + BLSApiResponse"

definition ok :: "Response \<Rightarrow> bool" where
  "ok r \<longleftrightarrow> 200 \<le> status r \<and> status r \<le> 299"

datatype fetch_outcome = Rejected string | Resolved Response

text \<open>
  The three \<open>throw new Error(...)\<close> sites of the client, with the values their messages are
  built from, and the rejection of \<open>response.json()\<close>, which propagates as it is.
\<close>

datatype error =
    TransientFailure int string
  | ProviderHttpError int string
  | ProviderApiError string
  | BodyUnreadable string

text \<open>
  The state the client works on: the module-level \<open>cache\<close>, the clock read by
  \<open>Date.now()\<close>, and a log of the effects: the calls of \<open>fetch\<close> in order, and the delays
  \<open>sleep\<close> was called with.
\<close>

record world =
  cache :: "string \<rightharpoonup> CacheEntry"
  now :: int
  sent :: "Request list"
  slept :: "int list"

text \<open>
  The network: what the \<open>k\<close>-th call of \<open>fetch\<close> (counted from 0 over the life of the
  process) answers to a request. The process environment is a map from names to values.
\<close>

type_synonym network = "nat \<Rightarrow> Request \<Rightarrow> fetch_outcome"
type_synonym env = "string \<rightharpoonup> string"

section \<open>Strings\<close>

definition digit_char :: "nat \<Rightarrow> char" where
  "digit_char d = ''0123456789'' ! d"

fun string_of_nat :: "nat \<Rightarrow> string" where
  "string_of_nat n =
     (if n < 10 then [digit_char n] else string_of_nat (n div 10) @ [digit_char (n mod 10)])"

declare string_of_nat.simps [simp del]

text \<open>\<open>Number.prototype.toString\<close> on an integer.\<close>

definition toString :: "int \<Rightarrow> string" where
  "toString i = (if i < 0 then ''-'' @ string_of_nat (nat (- i)) else string_of_nat (nat i))"

text \<open>\<open>Array.prototype.join\<close>\<close>

fun join :: "string \<Rightarrow> string list \<Rightarrow> string" where
  "join sep [] = []"
| "join sep [x] = x"
| "join sep (x # y # ys) = x @ sep @ join sep (y # ys)"

text \<open>\<open>Array.prototype.slice(i, j)\<close> for \<open>0 \<le> i \<le> j\<close>\<close>

definition slice :: "'a list \<Rightarrow> nat \<Rightarrow> nat \<Rightarrow> 'a list" where
  "slice xs i j = take (j - i) (drop i xs)"

section \<open>The cache\<close>

text \<open>\<open>${startYear || 'null'}\<close>: undefined and 0 are both falsy.\<close>

definition year_or_null :: "int option \<Rightarrow> string" where
  "year_or_null y = (case y of None \<Rightarrow> ''null'' | Some n \<Rightarrow> if n = 0 then ''null'' else toString n)"

text \<open>
  \<open>getCacheKey\<close> sorts the array it is given in place: the model returns the key and the
  array as the call leaves it.
\<close>

definition getCacheKey :: "string list \<Rightarrow> int option \<Rightarrow> int option \<Rightarrow> string \<times> string list" where
  "getCacheKey seriesIds startYear endYear =
     (let sorted = sort seriesIds
      in (join '','' sorted @ ''_'' @ year_or_null startYear @ ''_'' @ year_or_null endYear,
          sorted))"

definition isCacheValid :: "CacheEntry \<Rightarrow> int \<Rightarrow> int \<Rightarrow> bool" where
  "isCacheValid entry ttl t \<longleftrightarrow> t - timestamp entry < ttl"

definition clearCache :: "world \<Rightarrow> world" where
  "clearCache w = w\<lparr>cache := Map.empty\<rparr>"

text \<open>
  \<open>sleep\<close>: the delay is logged as requested; the clock moves on by it (a timer with a
  delay of 0 or less fires at once).
\<close>

definition sleep :: "int \<Rightarrow> world \<Rightarrow> world" where
  "sleep ms w = w\<lparr>now := now w + max 0 ms, slept := slept w @ [ms]\<rparr>"

section \<open>Configuration\<close>

definition DEFAULT_CONFIG :: FullConfig where
  "DEFAULT_CONFIG =
     \<lparr>apiKey = '''', baseUrl = ''https://api.bls.gov/publicAPI/v2'', enableCache = True,
      cacheTTL = 3600000, maxRetries = 3, retryDelay = 1000\<rparr>"

definition no_overrides :: BLSClientConfig where
  "no_overrides =
     \<lparr>apiKey_opt = None, baseUrl_opt = None, enableCache_opt = None,
      cacheTTL_opt = None, maxRetries_opt = None, retryDelay_opt = None\<rparr>"

text \<open>\<open>{...c, ...overrides}\<close>: a property that is set in \<open>overrides\<close> replaces the one of \<open>c\<close>.\<close>

definition spread :: "FullConfig \<Rightarrow> BLSClientConfig \<Rightarrow> FullConfig" where
  "spread c overrides =
     \<lparr>apiKey = (case apiKey_opt overrides of None \<Rightarrow> apiKey c | Some v \<Rightarrow> v),
      baseUrl = (case baseUrl_opt overrides of None \<Rightarrow> baseUrl c | Some v \<Rightarrow> v),
      enableCache = (case enableCache_opt overrides of None \<Rightarrow> enableCache c | Some v \<Rightarrow> v),
      cacheTTL = (case cacheTTL_opt overrides of None \<Rightarrow> cacheTTL c | Some v \<Rightarrow> v),
      maxRetries = (case maxRetries_opt overrides of None \<Rightarrow> maxRetries c | Some v \<Rightarrow> v),
      retryDelay = (case retryDelay_opt overrides of None \<Rightarrow> retryDelay c | Some v \<Rightarrow> v)\<rparr>"

definition getConfig :: "env \<Rightarrow> BLSClientConfig \<Rightarrow> FullConfig" where
  "getConfig penv overrides =
     spread (DEFAULT_CONFIG
               \<lparr>apiKey := (case penv ''BLS_API_KEY'' of None \<Rightarrow> '''' | Some v \<Rightarrow> v),
                enableCache := (penv ''BLS_CACHE_ENABLED'' \<noteq> Some ''false'')\<rparr>)
            overrides"

section \<open>The Backoff Fetcher\<close>

text \<open>\<open>lastError?.message || 'Unknown error'\<close>: \<open>lastError\<close> holds the message of the last
  error caught, if any.\<close>

definition cause_text :: "string option \<Rightarrow> string" where
  "cause_text lastError =
     (case lastError of None \<Rightarrow> ''Unknown error''
      | Some m \<Rightarrow> if m = [] then ''Unknown error'' else m)"

text \<open>One call of \<open>fetch\<close>: the request is logged and the network answers.\<close>

definition do_fetch :: "network \<Rightarrow> Request \<Rightarrow> world \<Rightarrow> fetch_outcome \<times> world" where
  "do_fetch net rq w = (net (length (sent w)) rq, w\<lparr>sent := sent w @ [rq]\<rparr>)"

text \<open>
  The \<open>for\<close> loop of \<open>fetchWithRetry\<close>, from \<open>attempt\<close> on: a 429 and a rejected \<open>fetch\<close>
  both sleep \<open>retryDelay * 2^attempt\<close> and go on (only the rejection sets \<open>lastError\<close>), any
  other response is returned, and the loop's end throws.
\<close>

function retry_loop ::
  "network \<Rightarrow> Request \<Rightarrow> FullConfig \<Rightarrow> nat \<Rightarrow> string option \<Rightarrow> world \<Rightarrow> (error + Response) \<times> world"
where
  "retry_loop net rq config attempt lastError w =
     (if int attempt < maxRetries config then
        (case do_fetch net rq w of
           (Resolved response, w1) \<Rightarrow>
             if status response = 429
             then retry_loop net rq config (attempt + 1) lastError
                    (sleep (retryDelay config * 2 ^ attempt) w1)
             else (Inr response, w1)
         | (Rejected msg, w1) \<Rightarrow>
             retry_loop net rq config (attempt + 1) (Some msg)
               (sleep (retryDelay config * 2 ^ attempt) w1))
      else (Inl (TransientFailure (maxRetries config) (cause_text lastError)), w))"
  by pat_completeness auto
termination
  by (relation "measure (\<lambda>(net, rq, config, attempt, lastError, w). nat (maxRetries config - int attempt))")
     auto

declare retry_loop.simps [simp del]

definition fetchWithRetry ::
  "network \<Rightarrow> Request \<Rightarrow> FullConfig \<Rightarrow> world \<Rightarrow> (error + Response) \<times> world" where
  "fetchWithRetry net rq config w = retry_loop net rq config 0 None w"

text \<open>The text of each error, as the \<open>throw\<close> builds it.\<close>

definition error_message :: "error \<Rightarrow> string" where
  "error_message e =
     (case e of
        TransientFailure n cause \<Rightarrow>
          ''BLS API request failed after '' @ toString n @ '' attempts: '' @ cause
      | ProviderHttpError st txt \<Rightarrow> ''BLS API error: '' @ toString st @ '' '' @ txt
      | ProviderApiError msgs \<Rightarrow> ''BLS API error: '' @ msgs
      | BodyUnreadable msg \<Rightarrow> msg)"

section \<open>The Series Orchestrator\<close>

text \<open>The cache check at the head of \<open>fetchSeriesData\<close>.\<close>

definition cache_lookup :: "FullConfig \<Rightarrow> string \<Rightarrow> world \<Rightarrow> BLSSeries list option" where
  "cache_lookup fullConfig cacheKey w =
     (if enableCache fullConfig then
        (case cache w cacheKey of
           None \<Rightarrow> None
         | Some cached \<Rightarrow>
             if isCacheValid cached (cacheTTL fullConfig) (now w) then Some (cached_data cached)
             else None)
      else None)"

text \<open>The request \<open>fetchSeriesData\<close> builds: the years by \<open>!== undefined\<close>, the key by truthiness.\<close>

definition build_request ::
  "FullConfig \<Rightarrow> string list \<Rightarrow> int option \<Rightarrow> int option \<Rightarrow> Request" where
  "build_request fullConfig seriesIds startYear endYear =
     \<lparr>url = baseUrl fullConfig @ ''/timeseries/data/'',
      http_method = ''POST'',
      content_type = ''application/json'',
      body = \<lparr>seriesid = seriesIds,
               startyear = map_option toString startYear,
               endyear = map_option toString endYear,
               registrationkey = (if apiKey fullConfig \<noteq> [] then Some (apiKey fullConfig) else None)\<rparr>\<rparr>"

text \<open>\<open>data.message?.join('; ') || 'Unknown BLS API error'\<close>\<close>

definition errorMessages :: "BLSApiResponse \<Rightarrow> string" where
  "errorMessages d =
     (case message d of
        None \<Rightarrow> ''Unknown BLS API error''
      | Some ms \<Rightarrow> if join ''; '' ms = [] then ''Unknown BLS API error'' else join ''; '' ms)"

text \<open>What \<open>fetchSeriesData\<close> makes of the response \<open>fetchWithRetry\<close> returned.\<close>

definition read_response :: "Response \<Rightarrow> error + BLSSeries list" where
  "read_response response =
     (if \<not> ok response then Inl (ProviderHttpError (status response) (statusText response))
      else case json response of
             Inl msg \<Rightarrow> Inl (BodyUnreadable msg)
           | Inr d \<Rightarrow>
               if api_status d \<noteq> ''REQUEST_SUCCEEDED'' then Inl (ProviderApiError (errorMessages d))
               else Inr (case Results_series d of None \<Rightarrow> [] | Some ss \<Rightarrow> ss))"

text \<open>
  \<open>fetchSeriesData\<close> returns its result, the array it was given as the call leaves it
  (\<open>getCacheKey\<close> has sorted it, and the request body is built from that array), and the
  new state.
\<close>

definition fetchSeriesData ::
  "network \<Rightarrow> env \<Rightarrow> string list \<Rightarrow> int option \<Rightarrow> int option \<Rightarrow> BLSClientConfig \<Rightarrow> world
     \<Rightarrow> (error + BLSSeries list) \<times> string list \<times> world" where
  "fetchSeriesData net penv seriesIds startYear endYear config w =
     (let fullConfig = getConfig penv config;
          (cacheKey, seriesIds') = getCacheKey seriesIds startYear endYear
      in case cache_lookup fullConfig cacheKey w of
           Some cached \<Rightarrow> (Inr cached, seriesIds', w)
         | None \<Rightarrow>
             (case fetchWithRetry net (build_request fullConfig seriesIds' startYear endYear)
                     fullConfig w of
                (Inl e, w1) \<Rightarrow> (Inl e, seriesIds', w1)
              | (Inr response, w1) \<Rightarrow>
                  (case read_response response of
                     Inl e \<Rightarrow> (Inl e, seriesIds', w1)
                   | Inr series \<Rightarrow>
                       (Inr series, seriesIds',
                        if enableCache fullConfig
                        then w1\<lparr>cache := (cache w1)
                                  (cacheKey \<mapsto> \<lparr>cached_data = series, timestamp = now w1\<rparr>)\<rparr>
                        else w1))))"

definition getSeries ::
  "network \<Rightarrow> env \<Rightarrow> string \<Rightarrow> int option \<Rightarrow> int option \<Rightarrow> BLSClientConfig \<Rightarrow> world
     \<Rightarrow> (error + BLSSeries option) \<times> world" where
  "getSeries net penv seriesId startYear endYear config w =
     (case fetchSeriesData net penv [seriesId] startYear endYear config w of
        (Inl e, _, w1) \<Rightarrow> (Inl e, w1)
      | (Inr series, _, w1) \<Rightarrow> (Inr (find (\<lambda>s. seriesID s = seriesId) series), w1))"

definition maxSeriesPerRequest :: "FullConfig \<Rightarrow> nat" where
  "maxSeriesPerRequest fullConfig = (if apiKey fullConfig \<noteq> [] then 50 else 25)"

text \<open>
  The \<open>for\<close> loop of \<open>getMultipleSeries\<close>, from index \<open>i\<close> on, with the results so far. Each
  batch is a fresh array (\<open>slice\<close>), so the caller's array is not touched here.
\<close>

function batch_loop ::
  "network \<Rightarrow> env \<Rightarrow> FullConfig \<Rightarrow> string list \<Rightarrow> int option \<Rightarrow> int option \<Rightarrow> BLSClientConfig
     \<Rightarrow> nat \<Rightarrow> BLSSeries list \<Rightarrow> world \<Rightarrow> (error + BLSSeries list) \<times> world"
where
  "batch_loop net penv fullConfig seriesIds startYear endYear config i results w =
     (if i < length seriesIds then
        (case fetchSeriesData net penv
                (slice seriesIds i (i + maxSeriesPerRequest fullConfig)) startYear endYear config w of
           (Inl e, _, w1) \<Rightarrow> (Inl e, w1)
         | (Inr batchResults, _, w1) \<Rightarrow>
             batch_loop net penv fullConfig seriesIds startYear endYear config
               (i + maxSeriesPerRequest fullConfig) (results @ batchResults) w1)
      else (Inr results, w))"
  by pat_completeness auto
termination
  by (relation "measure (\<lambda>(net, penv, fullConfig, seriesIds, startYear, endYear, config, i, results, w).
                   length seriesIds - i)")
     (auto simp: maxSeriesPerRequest_def)

declare batch_loop.simps [simp del]

text \<open>
  \<open>getMultipleSeries\<close> returns its result, the caller's array as the call leaves it, and
  the new state.
\<close>

definition getMultipleSeries ::
  "network \<Rightarrow> env \<Rightarrow> string list \<Rightarrow> int option \<Rightarrow> int option \<Rightarrow> BLSClientConfig \<Rightarrow> world
     \<Rightarrow> (error + BLSSeries list) \<times> string list \<times> world" where
  "getMultipleSeries net penv seriesIds startYear endYear config w =
     (let fullConfig = getConfig penv config
      in if length seriesIds \<le> maxSeriesPerRequest fullConfig
         then fetchSeriesData net penv seriesIds startYear endYear config w
         else (case batch_loop net penv fullConfig seriesIds startYear endYear config 0 [] w of
                 (r, w1) \<Rightarrow> (r, seriesIds, w1)))"

section \<open>The Batch Splitter\<close>

text \<open>
  The batches \<open>getMultipleSeries\<close> works on, for any ceiling: the array itself when it is
  no longer than the ceiling, and otherwise the slices its \<open>for\<close> loop takes,
  \<open>i = 0, maxBatchSize, 2 * maxBatchSize, ...\<close> while \<open>i < seriesIds.length\<close>. With a
  ceiling of 0 that loop would not end: the result is \<open>None\<close> then.
\<close>

partial_function (option) split_loop :: "'a list \<Rightarrow> nat \<Rightarrow> nat \<Rightarrow> 'a list list \<Rightarrow> 'a list list option"
where
  "split_loop seriesIds maxBatchSize i batches =
     (if i < length seriesIds
      then split_loop seriesIds maxBatchSize (i + maxBatchSize)
             (batches @ [slice seriesIds i (i + maxBatchSize)])
      else Some batches)"

declare split_loop.simps [code]

definition split :: "'a list \<Rightarrow> nat \<Rightarrow> 'a list list option" where
  "split seriesIds maxBatchSize =
     (if length seriesIds \<le> maxBatchSize then Some [seriesIds]
      else split_loop seriesIds maxBatchSize 0 [])"

text \<open>
  The caller's side of the splitter's contract, in the words of the specification: one
  fetch per batch, in batch order, the results concatenated in that order; the first
  failure ends the call.
\<close>

fun fetch_batches ::
  "network \<Rightarrow> env \<Rightarrow> string list list \<Rightarrow> int option \<Rightarrow> int option \<Rightarrow> BLSClientConfig
     \<Rightarrow> BLSSeries list \<Rightarrow> world \<Rightarrow> (error + BLSSeries list) \<times> world"
where
  "fetch_batches net penv [] startYear endYear config results w = (Inr results, w)"
| "fetch_batches net penv (batch # batches) startYear endYear config results w =
     (case fetchSeriesData net penv batch startYear endYear config w of
        (Inl e, _, w1) \<Rightarrow> (Inl e, w1)
      | (Inr batchResults, _, w1) \<Rightarrow>
          fetch_batches net penv batches startYear endYear config (results @ batchResults) w1)"

section \<open>The integration's configuration (backend/src/config/blsConfig.ts)\<close>

text \<open>
  \<open>parseInt(s, 10)\<close>: leading white space (the ASCII part of it), a sign, then the longest
  run of decimal digits; \<open>None\<close> is NaN.
\<close>

definition is_space :: "char \<Rightarrow> bool" where
  "is_space c \<longleftrightarrow> c \<in> set [CHR '' '', CHR 0x09, CHR 0x0A, CHR 0x0B, CHR 0x0C, CHR 0x0D]"

definition digit_val :: "char \<Rightarrow> nat option" where
  "digit_val c = map_of (zip ''0123456789'' [0 ..< 10]) c"

definition digits_val :: "string \<Rightarrow> nat" where
  "digits_val ds = foldl (\<lambda>a c. 10 * a + the (digit_val c)) 0 ds"

definition parseInt :: "string \<Rightarrow> int option" where
  "parseInt s =
     (let s1 = dropWhile is_space s;
          (neg, s2) = (case s1 of
                         c # r \<Rightarrow> if c = CHR ''-'' then (True, r)
                                  else if c = CHR ''+'' then (False, r) else (False, s1)
                       | [] \<Rightarrow> (False, s1));
          ds = takeWhile (\<lambda>c. digit_val c \<noteq> None) s2
      in if ds = [] then None
         else Some (if neg then - int (digits_val ds) else int (digits_val ds)))"

text \<open>\<open>process.env.NAME || fallback\<close>\<close>

definition env_or :: "env \<Rightarrow> string \<Rightarrow> string \<Rightarrow> string" where
  "env_or penv name fallback =
     (case penv name of None \<Rightarrow> fallback | Some v \<Rightarrow> if v = [] then fallback else v)"

text \<open>\<open>BLSConfig\<close>, its nested objects \<open>seriesIds\<close>, \<open>cache\<close> and \<open>retry\<close> flattened.\<close>

record BLSConfig =
  enabled :: bool
  seriesIds_cpi :: string
  seriesIds_unemployment :: string
  seriesIds_wages :: string
  cache_enabled :: bool
  cache_ttlMs :: "int option"
  retry_maxAttempts :: "int option"
  retry_baseDelayMs :: "int option"

definition getBLSConfig :: "env \<Rightarrow> BLSConfig" where
  "getBLSConfig penv =
     \<lparr>enabled = (penv ''BLS_ENABLED'' \<noteq> Some ''false''),
      seriesIds_cpi = env_or penv ''BLS_SERIES_CPI'' ''CUSR0000SA0'',
      seriesIds_unemployment = env_or penv ''BLS_SERIES_UNEMPLOYMENT'' ''LNS14000000'',
      seriesIds_wages = env_or penv ''BLS_SERIES_WAGES'' ''CES0500000003'',
      cache_enabled = (penv ''BLS_CACHE_ENABLED'' \<noteq> Some ''false''),
      cache_ttlMs = parseInt (env_or penv ''BLS_CACHE_TTL_MS'' ''3600000''),
      retry_maxAttempts = parseInt (env_or penv ''BLS_RETRY_MAX_ATTEMPTS'' ''3''),
      retry_baseDelayMs = parseInt (env_or penv ''BLS_RETRY_BASE_DELAY_MS'' ''1000'')\<rparr>"

section \<open>The Mapper (backend/src/data/careerBlsMappings.ts)\<close>

text \<open>\<open>CareerBlsMapping\<close>, its \<open>seriesIds\<close> object flattened; each series is optional.\<close>

record CareerBlsMapping =
  careerId :: string
  cpi :: "string option"
  unemployment :: "string option"
  wages :: "string option"

definition CAREER_BLS_MAPPINGS :: "CareerBlsMapping list" where
  "CAREER_BLS_MAPPINGS =
     [\<lparr>careerId = ''rn-001'', cpi = Some ''CUSR0000SA0'', unemployment = Some ''LNS14000000'',
       wages = Some ''CES0500000003''\<rparr>,
      \<lparr>careerId = ''ma-001'', cpi = Some ''CUSR0000SA0'', unemployment = Some ''LNS14000000'',
       wages = Some ''CES0500000003''\<rparr>,
      \<lparr>careerId = ''elec-001'', cpi = Some ''CUSR0000SA0'', unemployment = Some ''LNS14000000'',
       wages = Some ''CES0500000003''\<rparr>]"

text \<open>
  The lookup, for any table of mappings (the table of the source is example data, to be
  replaced), and for the table as it stands.
\<close>

definition getBlsMappingForCareer_in :: "CareerBlsMapping list \<Rightarrow> string \<Rightarrow> CareerBlsMapping option" where
  "getBlsMappingForCareer_in mappings cid = find (\<lambda>m. careerId m = cid) mappings"

definition getBlsMappingForCareer :: "string \<Rightarrow> CareerBlsMapping option" where
  "getBlsMappingForCareer cid = getBlsMappingForCareer_in CAREER_BLS_MAPPINGS cid"

section \<open>The Aggregation Service (backend/src/services/careerEconomicService.ts)\<close>

record JobEconomicIndicator =
  ind_seriesId :: string
  name :: string
  ind_data :: "BLSSeriesData list"
  lastUpdated :: string

text \<open>\<open>[cpi, unemployment, wages].filter(Boolean)\<close>: undefined and the empty string go.\<close>

definition wantedSeries :: "CareerBlsMapping \<Rightarrow> string list" where
  "wantedSeries mapping =
     concat (map (\<lambda>x. case x of None \<Rightarrow> [] | Some v \<Rightarrow> if v = [] then [] else [v])
               [cpi mapping, unemployment mapping, wages mapping])"

definition getSeriesFriendlyName :: "string \<Rightarrow> CareerBlsMapping \<Rightarrow> string" where
  "getSeriesFriendlyName sid mapping =
     (if Some sid = cpi mapping then ''Consumer Price Index (CPI)''
      else if Some sid = unemployment mapping then ''Unemployment Rate''
      else if Some sid = wages mapping then ''Average Hourly Earnings''
      else sid)"

text \<open>
  \<open>currentYear\<close> and \<open>isoNow\<close> are what \<open>new Date().getFullYear()\<close> and
  \<open>new Date().toISOString()\<close> read.
\<close>

definition getJobSpecificEconomicData_in ::
  "CareerBlsMapping list \<Rightarrow> network \<Rightarrow> env \<Rightarrow> int \<Rightarrow> string \<Rightarrow> string \<Rightarrow> world
     \<Rightarrow> (error + JobEconomicIndicator list) \<times> world" where
  "getJobSpecificEconomicData_in mappings net penv currentYear isoNow cid w =
     (if \<not> enabled (getBLSConfig penv) then (Inr [], w)
      else case getBlsMappingForCareer_in mappings cid of
             None \<Rightarrow> (Inr [], w)
           | Some mapping \<Rightarrow>
               if length (wantedSeries mapping) = 0 then (Inr [], w)
               else (case getMultipleSeries net penv (wantedSeries mapping)
                            (Some (currentYear - 5)) (Some currentYear) no_overrides w of
                       (Inl e, _, w1) \<Rightarrow> (Inl e, w1)
                     | (Inr seriesList, _, w1) \<Rightarrow>
                         (Inr (map (\<lambda>s. \<lparr>ind_seriesId = seriesID s,
                                          name = getSeriesFriendlyName (seriesID s) mapping,
                                          ind_data = data s,
                                          lastUpdated = isoNow\<rparr>) seriesList),
                          w1)))"

definition getJobSpecificEconomicData ::
  "network \<Rightarrow> env \<Rightarrow> int \<Rightarrow> string \<Rightarrow> string \<Rightarrow> world \<Rightarrow> (error + JobEconomicIndicator list) \<times> world" where
  "getJobSpecificEconomicData = getJobSpecificEconomicData_in CAREER_BLS_MAPPINGS"

section \<open>Notions the statements use\<close>

text \<open>
  The outcomes \<open>fetchWithRetry\<close> retries on: a rejected \<open>fetch\<close> (the \<open>catch\<close> branch) and a
  response with status 429.
\<close>

definition retryable :: "fetch_outcome \<Rightarrow> bool" where
  "retryable out = (case out of Rejected msg \<Rightarrow> True | Resolved response \<Rightarrow> status response = 429)"

text \<open>
  \<open>lastError\<close> after a run of retried outcomes (only a rejection sets it), and the answers
  of the network to \<open>n\<close> calls of \<open>fetch\<close> in a row, the first being call number \<open>k0\<close>.
\<close>

fun caught :: "fetch_outcome list \<Rightarrow> string option \<Rightarrow> string option" where
  "caught [] lastError = lastError"
| "caught (Rejected msg # outs) lastError = caught outs (Some msg)"
| "caught (Resolved response # outs) lastError = caught outs lastError"

definition answers :: "network \<Rightarrow> Request \<Rightarrow> nat \<Rightarrow> nat \<Rightarrow> fetch_outcome list" where
  "answers net rq k0 n = map (\<lambda>k. net (k0 + k) rq) [0 ..< n]"

text \<open>
  Values the examples are run on: a fresh process, the sample response of the client's
  unit tests (\<open>mockBLSResponse\<close> of backend/tests/blsClient.test.ts), a response that
  carries an envelope, and a throttling response.
\<close>

definition world0 :: world where
  "world0 = \<lparr>cache = Map.empty, now = 0, sent = [], slept = []\<rparr>"

definition mockBLSResponse :: BLSApiResponse where
  "mockBLSResponse =
     \<lparr>api_status = ''REQUEST_SUCCEEDED'', responseTime = 50, message = Some [],
      Results_series = Some
        [\<lparr>seriesID = ''CUSR0000SA0'',
          data = [\<lparr>year = ''2023'', period = ''M12'', periodName = ''December'',
                   val = ''306.746'', footnotes = []\<rparr>,
                  \<lparr>year = ''2023'', period = ''M11'', periodName = ''November'',
                   val = ''307.051'', footnotes = []\<rparr>]\<rparr>]\<rparr>"

definition ok_response :: "BLSApiResponse \<Rightarrow> Response" where
  "ok_response d = \<lparr>status = 200, statusText = ''OK'', json = Inr d\<rparr>"

definition too_many_requests :: Response where
  "too_many_requests = \<lparr>status = 429, statusText = ''Too Many Requests'', json = Inl []\<rparr>"

text \<open>A network that answers every call with status 200 and the given envelope.\<close>

definition answering :: "BLSApiResponse \<Rightarrow> network" where
  "answering d = (\<lambda>k rq. Resolved (ok_response d))"

text \<open>
  Networks for the retry examples: one that rejects every call, one that answers every
  call with 429, one that rejects the first call and answers 429 from then on; the
  overrides \<open>{maxRetries: 2, retryDelay: 10}\<close> of the unit test "should fail after max
  retries", and the request that \<open>getSeries('CUSR0000SA0', 2023, 2023)\<close> sends under them.
\<close>

definition always_offline :: network where
  "always_offline k rq = Rejected ''Network error''"

definition always_throttled :: network where
  "always_throttled k rq = Resolved too_many_requests"

definition offline_then_throttled :: network where
  "offline_then_throttled k rq = (if k = 0 then Rejected ''Network error'' else Resolved too_many_requests)"

definition two_tries :: BLSClientConfig where
  "two_tries = no_overrides\<lparr>maxRetries_opt := Some 2, retryDelay_opt := Some 10\<rparr>"

definition cpi_request :: Request where
  "cpi_request = build_request (getConfig Map.empty two_tries) [''CUSR0000SA0''] (Some 2023) (Some 2023)"

text \<open>
  The list cut into consecutive pieces of \<open>m\<close> elements, the last one shorter when \<open>m\<close> does
  not divide the length: a total function to compare the loops with.
\<close>

function chunks :: "nat \<Rightarrow> 'a list \<Rightarrow> 'a list list" where
  "chunks m xs = (if xs = [] \<or> m = 0 then [] else take m xs # chunks m (drop m xs))"
  by pat_completeness auto
termination
  by (relation "measure (\<lambda>(m, xs). length xs)") auto

declare chunks.simps [simp del]

text \<open>
  Sixty identifiers in ascending order, and a provider that answers every request with
  one (empty) series for each identifier of the request body, in the body's order.
\<close>

definition sixty_ids :: "string list" where
  "sixty_ids = map (\<lambda>n. ''SERIES'' @ string_of_nat n) [100 ..< 160]"

definition echo :: network where
  "echo k rq =
     Resolved (ok_response
       \<lparr>api_status = ''REQUEST_SUCCEEDED'', responseTime = 0, message = Some [],
        Results_series = Some (map (\<lambda>i. \<lparr>seriesID = i, data = []\<rparr>) (seriesid (body rq)))\<rparr>)"

text \<open>
  The state after the first call of the caching unit tests,
  \<open>getSeries('CUSR0000SA0', 2023, 2023)\<close> in a fresh process against the sample response,
  the request that call sends, and a list one longer than the ceiling of 25.
\<close>

definition after_first_call :: world where
  "after_first_call =
     snd (getSeries (answering mockBLSResponse) Map.empty ''CUSR0000SA0'' (Some 2023) (Some 2023)
            no_overrides world0)"

definition default_request :: Request where
  "default_request =
     build_request (getConfig Map.empty no_overrides) [''CUSR0000SA0''] (Some 2023) (Some 2023)"

definition twenty_six_ids :: "string list" where
  "twenty_six_ids = take 26 sixty_ids"

text \<open>The request of the unit test "should return null for non-existent series".\<close>

definition nonexistent_request :: Request where
  "nonexistent_request =
     build_request (getConfig Map.empty no_overrides) [''NONEXISTENT''] (Some 2023) (Some 2023)"

section \<open>The retry loop, step by step\<close>

lemma retry_loop_stop:
  "\<not> int attempt < maxRetries config \<Longrightarrow>
   retry_loop net rq config attempt lastError w =
     (Inl (TransientFailure (maxRetries config) (cause_text lastError)), w)"
  by (subst retry_loop.simps) simp

lemma retry_loop_rejected:
  "int attempt < maxRetries config \<Longrightarrow> net (length (sent w)) rq = Rejected msg \<Longrightarrow>
   retry_loop net rq config attempt lastError w =
     retry_loop net rq config (Suc attempt) (Some msg)
       (sleep (retryDelay config * 2 ^ attempt) (w\<lparr>sent := sent w @ [rq]\<rparr>))"
  by (subst retry_loop.simps) (simp add: do_fetch_def)

lemma retry_loop_429:
  "int attempt < maxRetries config \<Longrightarrow> net (length (sent w)) rq = Resolved response \<Longrightarrow>
   status response = 429 \<Longrightarrow>
   retry_loop net rq config attempt lastError w =
     retry_loop net rq config (Suc attempt) lastError
       (sleep (retryDelay config * 2 ^ attempt) (w\<lparr>sent := sent w @ [rq]\<rparr>))"
  by (subst retry_loop.simps) (simp add: do_fetch_def)

lemma retry_loop_return:
  "int attempt < maxRetries config \<Longrightarrow> net (length (sent w)) rq = Resolved response \<Longrightarrow>
   status response \<noteq> 429 \<Longrightarrow>
   retry_loop net rq config attempt lastError w = (Inr response, w\<lparr>sent := sent w @ [rq]\<rparr>)"
  by (subst retry_loop.simps) (simp add: do_fetch_def)



lemma retry_loop_cases:
  assumes lt: "int attempt < maxRetries config"
  obtains (rejected) msg where "net (length (sent w)) rq = Rejected msg"
      "retry_loop net rq config attempt lastError w =
         retry_loop net rq config (Suc attempt) (Some msg)
           (sleep (retryDelay config * 2 ^ attempt) (w\<lparr>sent := sent w @ [rq]\<rparr>))"
    | (throttled) response where "net (length (sent w)) rq = Resolved response" "status response = 429"
      "retry_loop net rq config attempt lastError w =
         retry_loop net rq config (Suc attempt) lastError
           (sleep (retryDelay config * 2 ^ attempt) (w\<lparr>sent := sent w @ [rq]\<rparr>))"
    | (returned) response where "net (length (sent w)) rq = Resolved response" "status response \<noteq> 429"
      "retry_loop net rq config attempt lastError w = (Inr response, w\<lparr>sent := sent w @ [rq]\<rparr>)"
proof (cases "net (length (sent w)) rq")
  case (Rejected msg)
  then show ?thesis using rejected retry_loop_rejected [of attempt config net w rq msg lastError] lt
    by blast
next
  case (Resolved response)
  then show ?thesis
    using throttled [of response] returned [of response] lt
      retry_loop_429 [of attempt config net w rq response lastError]
      retry_loop_return [of attempt config net w rq response lastError]
    by (cases "status response = 429") blast+
qed

lemma retry_loop_cache: "cache (snd (retry_loop net rq config attempt lastError w)) = cache w"
proof (induction "nat (maxRetries config - int attempt)" arbitrary: attempt lastError w)
  case 0
  then have "\<not> int attempt < maxRetries config" by simp
  then show ?case by (simp add: retry_loop_stop)
next
  case (Suc n)
  then have lt: "int attempt < maxRetries config" and n: "n = nat (maxRetries config - int (Suc attempt))"
    by simp_all
  from lt show ?case
  proof (cases rule: retry_loop_cases [where net = net and rq = rq and w = w and lastError = lastError])
    case (rejected msg)
    then show ?thesis using Suc.hyps(1) [OF n] by (simp add: sleep_def)
  next
    case (throttled response)
    then show ?thesis using Suc.hyps(1) [OF n] by (simp add: sleep_def)
  next
    case (returned response)
    then show ?thesis by simp
  qed
qed

lemma retry_loop_now: "now w \<le> now (snd (retry_loop net rq config attempt lastError w))"
proof (induction "nat (maxRetries config - int attempt)" arbitrary: attempt lastError w)
  case 0
  then have "\<not> int attempt < maxRetries config" by simp
  then show ?case by (simp add: retry_loop_stop)
next
  case (Suc n)
  then have lt: "int attempt < maxRetries config" and n: "n = nat (maxRetries config - int (Suc attempt))"
    by simp_all
  let ?w1 = "sleep (retryDelay config * 2 ^ attempt) (w\<lparr>sent := sent w @ [rq]\<rparr>)"
  have w1: "now w \<le> now ?w1" by (simp add: sleep_def)
  from lt show ?case
  proof (cases rule: retry_loop_cases [where net = net and rq = rq and w = w and lastError = lastError])
    case (rejected msg)
    then show ?thesis using Suc.hyps(1) [OF n, where w = ?w1 and lastError = "Some msg"] w1 by simp
  next
    case (throttled response)
    then show ?thesis using Suc.hyps(1) [OF n, where w = ?w1 and lastError = lastError] w1 by simp
  next
    case (returned response)
    then show ?thesis by simp
  qed
qed

lemma retry_loop_sent:
  "\<exists>k. sent (snd (retry_loop net rq config attempt lastError w)) = sent w @ replicate k rq"
proof (induction "nat (maxRetries config - int attempt)" arbitrary: attempt lastError w)
  case 0
  then have "\<not> int attempt < maxRetries config" by simp
  then show ?case by (simp add: retry_loop_stop)
next
  case (Suc n)
  then have lt: "int attempt < maxRetries config" and n: "n = nat (maxRetries config - int (Suc attempt))"
    by simp_all
  let ?w1 = "sleep (retryDelay config * 2 ^ attempt) (w\<lparr>sent := sent w @ [rq]\<rparr>)"
  have w1: "sent ?w1 @ replicate k rq = sent w @ replicate (Suc k) rq" for k
    by (simp add: sleep_def)
  from lt show ?case
  proof (cases rule: retry_loop_cases [where net = net and rq = rq and w = w and lastError = lastError])
    case (rejected msg)
    from Suc.hyps(1) [OF n, where w = ?w1 and lastError = "Some msg"] obtain k where
      "sent (snd (retry_loop net rq config (Suc attempt) (Some msg) ?w1)) = sent ?w1 @ replicate k rq" ..
    then show ?thesis unfolding rejected(2) w1 by (rule exI)
  next
    case (throttled response)
    from Suc.hyps(1) [OF n, where w = ?w1 and lastError = lastError] obtain k where
      "sent (snd (retry_loop net rq config (Suc attempt) lastError ?w1)) = sent ?w1 @ replicate k rq" ..
    then show ?thesis unfolding throttled(3) w1 by (rule exI)
  next
    case (returned response)
    have "sent (w\<lparr>sent := sent w @ [rq]\<rparr>) = sent w @ replicate (Suc 0) rq" by simp
    then show ?thesis unfolding returned(3) snd_conv by (rule exI)
  qed
qed

text \<open>A call that returns a response has called \<open>fetch\<close> at least once.\<close>

lemma retry_loop_Inr_sent:
  "fst (retry_loop net rq config attempt lastError w) = Inr response \<Longrightarrow>
   \<exists>k. sent (snd (retry_loop net rq config attempt lastError w)) = sent w @ replicate (Suc k) rq"
proof (induction "nat (maxRetries config - int attempt)" arbitrary: attempt lastError w)
  case 0
  then have "\<not> int attempt < maxRetries config" by simp
  with 0 show ?case by (simp add: retry_loop_stop)
next
  case (Suc n)
  then have lt: "int attempt < maxRetries config" and n: "n = nat (maxRetries config - int (Suc attempt))"
    by simp_all
  let ?w1 = "sleep (retryDelay config * 2 ^ attempt) (w\<lparr>sent := sent w @ [rq]\<rparr>)"
  have w1: "sent ?w1 @ replicate k rq = sent w @ replicate (Suc k) rq" for k
    by (simp add: sleep_def)
  from lt show ?case
  proof (cases rule: retry_loop_cases [where net = net and rq = rq and w = w and lastError = lastError])
    case (rejected msg)
    from retry_loop_sent [of net rq config "Suc attempt" "Some msg" ?w1] obtain k where
      "sent (snd (retry_loop net rq config (Suc attempt) (Some msg) ?w1)) = sent ?w1 @ replicate k rq" ..
    then show ?thesis unfolding rejected(2) w1 by (rule exI)
  next
    case (throttled response)
    from retry_loop_sent [of net rq config "Suc attempt" lastError ?w1] obtain k where
      "sent (snd (retry_loop net rq config (Suc attempt) lastError ?w1)) = sent ?w1 @ replicate k rq" ..
    then show ?thesis unfolding throttled(3) w1 by (rule exI)
  next
    case (returned response)
    have "sent (w\<lparr>sent := sent w @ [rq]\<rparr>) = sent w @ replicate (Suc 0) rq" by simp
    then show ?thesis unfolding returned(3) snd_conv by (rule exI)
  qed
qed


lemma answers_Suc: "answers net rq k0 (Suc n) = net k0 rq # answers net rq (Suc k0) n"
proof -
  have "[0 ..< Suc n] = 0 # map Suc [0 ..< n]"
    by (simp add: upt_conv_Cons map_Suc_upt del: upt_Suc)
  then show ?thesis by (simp add: answers_def comp_def del: upt_Suc)
qed

lemma caught_snoc_Rejected: "caught (outs @ [Rejected msg]) lastError = Some msg"
  by (induction outs lastError rule: caught.induct) simp_all

lemma caught_all_Resolved:
  "\<forall>out \<in> set outs. \<exists>response. out = Resolved response \<Longrightarrow> caught outs lastError = lastError"
  by (induction outs lastError rule: caught.induct) simp_all

lemma retry_loop_exhausted:
  assumes "\<forall>k. int (attempt + k) < maxRetries config \<longrightarrow> retryable (net (length (sent w) + k) rq)"
    and "n = nat (maxRetries config - int attempt)"
  shows "retry_loop net rq config attempt lastError w =
     (Inl (TransientFailure (maxRetries config)
             (cause_text (caught (answers net rq (length (sent w)) n) lastError))),
      w\<lparr>now := now w + (\<Sum>k<n. max 0 (retryDelay config * 2 ^ (attempt + k))),
        sent := sent w @ replicate n rq,
        slept := slept w @ map (\<lambda>k. retryDelay config * 2 ^ k) [attempt ..< attempt + n]\<rparr>)"
  using assms
proof (induction n arbitrary: attempt lastError w)
  case 0
  then have "\<not> int attempt < maxRetries config" by simp
  then show ?case by (simp add: retry_loop_stop answers_def)
next
  case (Suc n)
  then have lt: "int attempt < maxRetries config" and n: "n = nat (maxRetries config - int (Suc attempt))"
    by simp_all
  let ?w1 = "sleep (retryDelay config * 2 ^ attempt) (w\<lparr>sent := sent w @ [rq]\<rparr>)"
  have len: "length (sent ?w1) = Suc (length (sent w))" by (simp add: sleep_def)
  have shift: "\<forall>k. int (Suc attempt + k) < maxRetries config \<longrightarrow> retryable (net (length (sent ?w1) + k) rq)"
    using Suc.prems(1) len by (metis add_Suc_right add_Suc_shift)
  note IH = Suc.IH [OF shift n]
  have first: "retryable (net (length (sent w)) rq)"
    using Suc.prems(1) lt by (metis add.right_neutral)
  have fin: "?w1\<lparr>now := now ?w1 + (\<Sum>k<n. max 0 (retryDelay config * 2 ^ (Suc attempt + k))),
        sent := sent ?w1 @ replicate n rq,
        slept := slept ?w1 @ map (\<lambda>k. retryDelay config * 2 ^ k) [Suc attempt ..< Suc attempt + n]\<rparr>
     = w\<lparr>now := now w + (\<Sum>k<Suc n. max 0 (retryDelay config * 2 ^ (attempt + k))),
        sent := sent w @ replicate (Suc n) rq,
        slept := slept w @ map (\<lambda>k. retryDelay config * 2 ^ k) [attempt ..< attempt + Suc n]\<rparr>"
    by (simp add: sleep_def sum.lessThan_Suc_shift upt_conv_Cons del: upt_Suc sum.lessThan_Suc)
  from lt show ?case
  proof (cases rule: retry_loop_cases [where net = net and rq = rq and w = w and lastError = lastError])
    case (rejected msg)
    show ?thesis
      unfolding rejected(2) IH [of "Some msg"] fin len answers_Suc rejected(1) by simp
  next
    case (throttled response)
    show ?thesis
      unfolding throttled(3) IH [of lastError] fin len answers_Suc throttled(1) by simp
  next
    case (returned response)
    with first show ?thesis by (simp add: retryable_def)
  qed
qed


lemma answers_snoc: "answers net rq k0 (Suc n) = answers net rq k0 n @ [net (k0 + n) rq]"
  by (simp add: answers_def)

lemma set_answers: "set (answers net rq k0 n) = (\<lambda>k. net (k0 + k) rq) ` {..<n}"
  by (auto simp: answers_def)

lemma sleep_cache_upd: "sleep ms (w\<lparr>cache := c\<rparr>) = (sleep ms w)\<lparr>cache := c\<rparr>"
  by (simp add: sleep_def)

lemma retry_loop_cache_indep:
  "retry_loop net rq config attempt lastError (w\<lparr>cache := c\<rparr>) =
     (fst (retry_loop net rq config attempt lastError w),
      (snd (retry_loop net rq config attempt lastError w))\<lparr>cache := c\<rparr>)"
proof (induction "nat (maxRetries config - int attempt)" arbitrary: attempt lastError w)
  case 0
  then have "\<not> int attempt < maxRetries config" by simp
  then show ?case by (simp add: retry_loop_stop)
next
  case (Suc n)
  then have lt: "int attempt < maxRetries config" and n: "n = nat (maxRetries config - int (Suc attempt))"
    by simp_all
  let ?w1 = "sleep (retryDelay config * 2 ^ attempt) (w\<lparr>sent := sent w @ [rq]\<rparr>)"
  have upd: "sleep (retryDelay config * 2 ^ attempt) (w\<lparr>cache := c, sent := sent w @ [rq]\<rparr>) = ?w1\<lparr>cache := c\<rparr>"
    by (simp add: sleep_def)
  from lt show ?case
  proof (cases rule: retry_loop_cases [where net = net and rq = rq and w = w and lastError = lastError])
    case (rejected msg)
    have "retry_loop net rq config attempt lastError (w\<lparr>cache := c\<rparr>) =
          retry_loop net rq config (Suc attempt) (Some msg) (?w1\<lparr>cache := c\<rparr>)"
      using lt rejected(1) upd by (simp add: retry_loop_rejected)
    then show ?thesis
      using Suc.hyps(1) [OF n, where w = ?w1 and lastError = "Some msg"] rejected(2) by simp
  next
    case (throttled response)
    have "retry_loop net rq config attempt lastError (w\<lparr>cache := c\<rparr>) =
          retry_loop net rq config (Suc attempt) lastError (?w1\<lparr>cache := c\<rparr>)"
      using lt throttled(1,2) upd by (simp add: retry_loop_429)
    then show ?thesis
      using Suc.hyps(1) [OF n, where w = ?w1 and lastError = lastError] throttled(3) by simp
  next
    case (returned response)
    have "retry_loop net rq config attempt lastError (w\<lparr>cache := c\<rparr>) =
          (Inr response, w\<lparr>cache := c, sent := sent w @ [rq]\<rparr>)"
      using lt returned(1,2) by (simp add: retry_loop_return)
    then show ?thesis using returned(3) by simp
  qed
qed

lemma retry_loop_first_sent:
  assumes lt: "int attempt < maxRetries config"
  shows "\<exists>k. sent (snd (retry_loop net rq config attempt lastError w)) = sent w @ replicate (Suc k) rq"
proof -
  let ?w1 = "sleep (retryDelay config * 2 ^ attempt) (w\<lparr>sent := sent w @ [rq]\<rparr>)"
  have w1: "sent ?w1 @ replicate k rq = sent w @ replicate (Suc k) rq" for k
    by (simp add: sleep_def)
  from lt show ?thesis
  proof (cases rule: retry_loop_cases [where net = net and rq = rq and w = w and lastError = lastError])
    case (rejected msg)
    from retry_loop_sent [of net rq config "Suc attempt" "Some msg" ?w1] obtain k where
      "sent (snd (retry_loop net rq config (Suc attempt) (Some msg) ?w1)) = sent ?w1 @ replicate k rq" ..
    then show ?thesis unfolding rejected(2) w1 by (rule exI)
  next
    case (throttled response)
    from retry_loop_sent [of net rq config "Suc attempt" lastError ?w1] obtain k where
      "sent (snd (retry_loop net rq config (Suc attempt) lastError ?w1)) = sent ?w1 @ replicate k rq" ..
    then show ?thesis unfolding throttled(3) w1 by (rule exI)
  next
    case (returned response)
    have "sent (w\<lparr>sent := sent w @ [rq]\<rparr>) = sent w @ replicate (Suc 0) rq" by simp
    then show ?thesis unfolding returned(3) snd_conv by (rule exI)
  qed
qed

lemma retry_loop_Inr_positive:
  "fst (retry_loop net rq config attempt lastError w) = Inr response \<Longrightarrow> int attempt < maxRetries config"
  by (rule ccontr) (simp add: retry_loop_stop)

lemma retry_loop_at_once:
  assumes "int attempt < maxRetries config" and "\<not> retryable (net (length (sent w)) rq)"
  shows "snd (retry_loop net rq config attempt lastError w) = w\<lparr>sent := sent w @ [rq]\<rparr>"
  using assms(1)
proof (cases rule: retry_loop_cases [where net = net and rq = rq and w = w and lastError = lastError])
  case (rejected msg)
  with assms(2) show ?thesis by (simp add: retryable_def)
next
  case (throttled response)
  with assms(2) show ?thesis by (simp add: retryable_def)
next
  case (returned response)
  then show ?thesis by simp
qed


section \<open>The orchestrator, path by path\<close>

lemma sort_cong_mset: "mset xs = mset ys \<Longrightarrow> sort xs = sort (ys :: 'a::linorder list)"
  by (rule properties_for_sort) simp_all

lemma getCacheKey_snd: "snd (getCacheKey seriesIds startYear endYear) = sort seriesIds"
  by (simp add: getCacheKey_def Let_def)

lemma getCacheKey_eq:
  "getCacheKey seriesIds startYear endYear =
     (fst (getCacheKey seriesIds startYear endYear), sort seriesIds)"
  by (simp add: getCacheKey_def Let_def)

lemma fetchSeriesData_hit:
  "cache_lookup (getConfig penv config) (fst (getCacheKey seriesIds startYear endYear)) w = Some d \<Longrightarrow>
   fetchSeriesData net penv seriesIds startYear endYear config w = (Inr d, sort seriesIds, w)"
  by (subst fetchSeriesData_def, subst getCacheKey_eq) (simp add: Let_def)

lemma fetchSeriesData_miss:
  "cache_lookup (getConfig penv config) (fst (getCacheKey seriesIds startYear endYear)) w = None \<Longrightarrow>
   fetchSeriesData net penv seriesIds startYear endYear config w =
     (case fetchWithRetry net
             (build_request (getConfig penv config) (sort seriesIds) startYear endYear)
             (getConfig penv config) w of
        (Inl e, w1) \<Rightarrow> (Inl e, sort seriesIds, w1)
      | (Inr response, w1) \<Rightarrow>
          (case read_response response of
             Inl e \<Rightarrow> (Inl e, sort seriesIds, w1)
           | Inr series \<Rightarrow>
               (Inr series, sort seriesIds,
                if enableCache (getConfig penv config)
                then w1\<lparr>cache := (cache w1)
                          (fst (getCacheKey seriesIds startYear endYear)
                             \<mapsto> \<lparr>cached_data = series, timestamp = now w1\<rparr>)\<rparr>
                else w1)))"
  by (subst fetchSeriesData_def, subst getCacheKey_eq) (simp add: Let_def)

lemma fetchSeriesData_array:
  "fst (snd (fetchSeriesData net penv seriesIds startYear endYear config w)) = sort seriesIds"
  by (cases "cache_lookup (getConfig penv config) (fst (getCacheKey seriesIds startYear endYear)) w")
     (auto simp: fetchSeriesData_hit fetchSeriesData_miss split: prod.splits sum.splits)

lemma fetchSeriesData_sent:
  "\<exists>k. sent (snd (snd (fetchSeriesData net penv seriesIds startYear endYear config w))) =
        sent w @ replicate k (build_request (getConfig penv config) (sort seriesIds) startYear endYear)"
proof (cases "cache_lookup (getConfig penv config) (fst (getCacheKey seriesIds startYear endYear)) w")
  case (Some d)
  then show ?thesis by (simp add: fetchSeriesData_hit)
next
  case None
  let ?rq = "build_request (getConfig penv config) (sort seriesIds) startYear endYear"
  obtain r w1 where f: "fetchWithRetry net ?rq (getConfig penv config) w = (r, w1)"
    by (cases "fetchWithRetry net ?rq (getConfig penv config) w")
  from retry_loop_sent [of net ?rq "getConfig penv config" 0 None w] f
  obtain k where "sent w1 = sent w @ replicate k ?rq"
    by (auto simp: fetchWithRetry_def)
  then have "sent (snd (snd (fetchSeriesData net penv seriesIds startYear endYear config w))) =
        sent w @ replicate k ?rq"
    using None f by (auto simp: fetchSeriesData_miss split: sum.splits)
  then show ?thesis ..
qed


lemma getMultipleSeries_small:
  "length seriesIds \<le> maxSeriesPerRequest (getConfig penv config) \<Longrightarrow>
   getMultipleSeries net penv seriesIds startYear endYear config w =
     fetchSeriesData net penv seriesIds startYear endYear config w"
  by (simp add: getMultipleSeries_def Let_def)

lemma getSeries_sent:
  "\<exists>k. sent (snd (getSeries net penv seriesId startYear endYear config w)) =
        sent w @ replicate k (build_request (getConfig penv config) [seriesId] startYear endYear)"
proof -
  from fetchSeriesData_sent [of net penv "[seriesId]" startYear endYear config w]
  obtain k where "sent (snd (snd (fetchSeriesData net penv [seriesId] startYear endYear config w))) =
        sent w @ replicate k (build_request (getConfig penv config) [seriesId] startYear endYear)"
    by auto
  then have "sent (snd (getSeries net penv seriesId startYear endYear config w)) =
        sent w @ replicate k (build_request (getConfig penv config) [seriesId] startYear endYear)"
    by (auto simp: getSeries_def split: prod.splits sum.splits)
  then show ?thesis ..
qed

lemma cache_lookup_stale:
  "cache w k = Some entry \<Longrightarrow> cacheTTL fullConfig \<le> now w - timestamp entry \<Longrightarrow>
   cache_lookup fullConfig k w = None"
  by (simp add: cache_lookup_def isCacheValid_def)

lemma cache_lookup_removed: "cache_lookup fullConfig k (w\<lparr>cache := (cache w)(k := None)\<rparr>) = None"
  by (simp add: cache_lookup_def)

lemma fetchSeriesData_stored:
  assumes en: "enableCache (getConfig penv config)"
    and miss: "cache_lookup (getConfig penv config) (fst (getCacheKey seriesIds startYear endYear)) w = None"
    and run: "fetchSeriesData net penv seriesIds startYear endYear config w = (Inr series, a, w1)"
  shows "\<exists>response wr.
     fetchWithRetry net (build_request (getConfig penv config) (sort seriesIds) startYear endYear)
       (getConfig penv config) w = (Inr response, wr) \<and>
     read_response response = Inr series \<and>
     a = sort seriesIds \<and>
     w1 = wr\<lparr>cache := (cache wr)(fst (getCacheKey seriesIds startYear endYear)
                             \<mapsto> \<lparr>cached_data = series, timestamp = now wr\<rparr>)\<rparr>"
proof -
  let ?fc = "getConfig penv config"
  let ?rq = "build_request ?fc (sort seriesIds) startYear endYear"
  obtain r wr where f: "fetchWithRetry net ?rq ?fc w = (r, wr)"
    by (cases "fetchWithRetry net ?rq ?fc w")
  show ?thesis
    using run en unfolding fetchSeriesData_miss [OF miss] f
    by (auto split: sum.splits)
qed

section \<open>The batches\<close>

lemma chunks_Nil [simp]: "chunks m [] = []"
  by (simp add: chunks.simps)

lemma chunks_step: "xs \<noteq> [] \<Longrightarrow> 0 < m \<Longrightarrow> chunks m xs = take m xs # chunks m (drop m xs)"
  by (subst chunks.simps) simp

lemma concat_chunks: "0 < m \<Longrightarrow> concat (chunks m xs) = xs"
proof (induction m xs rule: chunks.induct)
  case (1 m xs)
  then show ?case by (cases "xs = []") (simp_all add: chunks_step)
qed

lemma length_chunks_le: "b \<in> set (chunks m xs) \<Longrightarrow> length b \<le> m"
proof (induction m xs rule: chunks.induct)
  case (1 m xs)
  show ?case
  proof (cases "xs = [] \<or> m = 0")
    case True
    with 1(2) show ?thesis by (auto simp: chunks.simps)
  next
    case False
    with 1 show ?thesis by (auto simp: chunks_step)
  qed
qed

lemma chunks_nth:
  "k < length (chunks m xs) \<Longrightarrow> chunks m xs ! k = take m (drop (k * m) xs)"
proof (induction m xs arbitrary: k rule: chunks.induct)
  case (1 m xs)
  show ?case
  proof (cases "xs = [] \<or> m = 0")
    case True
    with 1(2) show ?thesis by (auto simp: chunks.simps)
  next
    case False
    then have st: "chunks m xs = take m xs # chunks m (drop m xs)" by (simp add: chunks_step)
    show ?thesis
    proof (cases k)
      case 0
      then show ?thesis by (simp add: st)
    next
      case (Suc j)
      with 1(2) st have "j < length (chunks m (drop m xs))" by simp
      from 1(1) [OF False this] Suc show ?thesis by (simp add: st add.commute)
    qed
  qed
qed

lemma split_loop_chunks:
  "0 < m \<Longrightarrow> split_loop xs m i acc = Some (acc @ chunks m (drop i xs))"
proof (induction "length xs - i" arbitrary: i acc rule: less_induct)
  case less
  show ?case
  proof (cases "i < length xs")
    case False
    then show ?thesis by (subst split_loop.simps) simp
  next
    case True
    then have ne: "drop i xs \<noteq> []" by simp
    from True less.prems have "length xs - (i + m) < length xs - i" by simp
    from less.hyps [OF this less.prems]
    have "split_loop xs m (i + m) (acc @ [slice xs i (i + m)]) =
            Some ((acc @ [slice xs i (i + m)]) @ chunks m (drop (i + m) xs))" .
    with True show ?thesis
      by (subst split_loop.simps)
         (simp add: chunks_step [OF ne less.prems] slice_def add.commute)
  qed
qed

lemma split_chunks:
  "0 < m \<Longrightarrow> split xs m = Some (if length xs \<le> m then [xs] else chunks m xs)"
  by (simp add: split_def split_loop_chunks)

lemma chunks_short: "xs \<noteq> [] \<Longrightarrow> length xs \<le> m \<Longrightarrow> chunks m xs = [xs]"
  by (subst chunks.simps) (cases m; simp)

lemma batch_loop_chunks:
  "batch_loop net penv fullConfig seriesIds startYear endYear config i results w =
     fetch_batches net penv (chunks (maxSeriesPerRequest fullConfig) (drop i seriesIds))
       startYear endYear config results w"
proof (induction net penv fullConfig seriesIds startYear endYear config i results w
       rule: batch_loop.induct)
  case (1 net penv fullConfig seriesIds startYear endYear config i results w)
  let ?m = "maxSeriesPerRequest fullConfig"
  have m: "0 < ?m" by (simp add: maxSeriesPerRequest_def)
  show ?case
  proof (cases "i < length seriesIds")
    case False
    then show ?thesis by (subst batch_loop.simps) simp
  next
    case True
    then have ne: "drop i seriesIds \<noteq> []" by simp
    have st: "chunks ?m (drop i seriesIds) =
        slice seriesIds i (i + ?m) # chunks ?m (drop (i + ?m) seriesIds)"
      by (simp add: chunks_step [OF ne m] slice_def add.commute)
    show ?thesis
      using True 1
      by (subst batch_loop.simps) (auto simp: st split: prod.splits sum.splits)
  qed
qed


lemma chunks_60_25:
  assumes "length xs = 60"
  shows "map length (chunks 25 xs) = [25, 25, 10]"
proof -
  have 1: "xs \<noteq> []" "drop 25 xs \<noteq> []" "drop 25 (drop 25 xs) \<noteq> []" using assms by auto
  have "chunks 25 xs = [take 25 xs, take 25 (drop 25 xs), take 25 (drop 25 (drop 25 xs))]"
    using assms 1 by (simp add: chunks_step)
  then show ?thesis using assms by simp
qed

text \<open>The definitions an example unfolds.\<close>

lemmas eval_defs = getCacheKey_def year_or_null_def toString_def string_of_nat.simps digit_char_def
  getConfig_def spread_def DEFAULT_CONFIG_def no_overrides_def maxSeriesPerRequest_def
  cache_lookup_def isCacheValid_def world0_def Let_def

lemmas run_defs = fetchSeriesData_def fetchWithRetry_def retry_loop.simps do_fetch_def sleep_def
  read_response_def ok_def ok_response_def build_request_def getSeries_def getMultipleSeries_def
  mockBLSResponse_def answering_def

lemma after_first_call_eq:
  "after_first_call =
     world0\<lparr>cache := [''CUSR0000SA0_2023_2023'' \<mapsto>
                         \<lparr>cached_data = the (Results_series mockBLSResponse), timestamp = 0\<rparr>],
            sent := [default_request]\<rparr>"
  by (simp add: after_first_call_def default_request_def eval_defs run_defs)

section \<open>The claims\<close>

subsection \<open>C5: the cache key does not depend on the order of the identifiers\<close>

text \<open>
  Claim C5. The cache key is invariant under permutation of the list of series
  identifiers: two requests with the same identifiers in any order (each as many times
  in the one list as in the other) and the same optional start and end year compute the
  same key. Hence a request for a permutation \<open>ys\<close> of
  \<open>xs\<close> (no longer than the batch ceiling) finds the fresh entry stored for \<open>xs\<close> and
  returns it, with no change to the state: no call of \<open>fetch\<close>, no sleep, the cache as it
  was. The array the caller passed is left sorted.
\<close>

theorem getCacheKey_permutation_invariant:
  assumes "mset xs = mset ys"
  shows "fst (getCacheKey xs startYear endYear) = fst (getCacheKey ys startYear endYear) \<and>
         (length ys \<le> maxSeriesPerRequest (getConfig penv config) \<and>
          cache_lookup (getConfig penv config) (fst (getCacheKey xs startYear endYear)) w = Some d
          \<longrightarrow> getMultipleSeries net penv ys startYear endYear config w = (Inr d, sort xs, w))"
proof -
  from assms have s: "sort xs = sort ys" by (rule sort_cong_mset)
  then have k: "fst (getCacheKey xs startYear endYear) = fst (getCacheKey ys startYear endYear)"
    by (simp add: getCacheKey_def Let_def)
  show ?thesis
    using k s by (simp add: getMultipleSeries_small fetchSeriesData_hit)
qed

text \<open>The example of the specification: \<open>['A','B']\<close>, then \<open>['B','A']\<close>, same year bounds.\<close>

theorem getCacheKey_permutation_invariant_witness:
  "mset [''A'', ''B''] = mset [''B'', ''A''] \<and>
   fst (getCacheKey [''B'', ''A''] (Some 2023) (Some 2023)) = ''A,B_2023_2023'' \<and>
   fst (getCacheKey [''A'', ''B''] (Some 2023) (Some 2023)) = ''A,B_2023_2023'' \<and>
   getMultipleSeries (\<lambda>k rq. Rejected ''offline'') Map.empty [''B'', ''A''] (Some 2023) (Some 2023)
       no_overrides
       (world0\<lparr>cache := [''A,B_2023_2023'' \<mapsto> \<lparr>cached_data = [], timestamp = 0\<rparr>], now := 5\<rparr>)
     = (Inr [], [''A'', ''B''],
        world0\<lparr>cache := [''A,B_2023_2023'' \<mapsto> \<lparr>cached_data = [], timestamp = 0\<rparr>], now := 5\<rparr>)"
  using getCacheKey_permutation_invariant [where xs = "[''A'', ''B'']" and ys = "[''B'', ''A'']"
      and penv = Map.empty and config = no_overrides
      and startYear = "Some 2023" and endYear = "Some 2023" and d = "[]"
      and net = "\<lambda>k rq. Rejected ''offline''"
      and w = "world0\<lparr>cache := [''A,B_2023_2023'' \<mapsto> \<lparr>cached_data = [], timestamp = 0\<rparr>], now := 5\<rparr>"]
  by (simp add: eval_defs)


subsection \<open>C10: the caller's array is sorted in place\<close>

text \<open>
  Claim C10. \<open>getCacheKey\<close> sorts the array it is given, in place, and \<open>fetchSeriesData\<close>
  builds the request body from that same array afterwards. So for every call of
  \<open>getMultipleSeries\<close> with a list no longer than the batch ceiling, whatever the outcome
  (cache hit, success, failure), the caller's array is in sorted order after the call, and
  every request the call sends lists the identifiers in sorted order. For \<open>getSeries\<close>
  the array is the one-element array it builds itself: it is as it was, and every
  request lists that one identifier.
\<close>

theorem seriesIds_sorted_in_place:
  assumes "length seriesIds \<le> maxSeriesPerRequest (getConfig penv config)"
  shows "fst (snd (getMultipleSeries net penv seriesIds startYear endYear config w)) = sort seriesIds \<and>
         sorted (fst (snd (getMultipleSeries net penv seriesIds startYear endYear config w))) \<and>
         (\<exists>k. sent (snd (snd (getMultipleSeries net penv seriesIds startYear endYear config w))) =
                sent w @ replicate k (build_request (getConfig penv config) (sort seriesIds) startYear endYear)) \<and>
         seriesid (body (build_request (getConfig penv config) (sort seriesIds) startYear endYear)) = sort seriesIds \<and>
         fst (snd (fetchSeriesData net penv [seriesId] startYear endYear config w)) = [seriesId] \<and>
         (\<exists>k. sent (snd (getSeries net penv seriesId startYear endYear config w)) =
                sent w @ replicate k (build_request (getConfig penv config) [seriesId] startYear endYear)) \<and>
         seriesid (body (build_request (getConfig penv config) [seriesId] startYear endYear)) = [seriesId]"
  using assms fetchSeriesData_sent [of net penv seriesIds startYear endYear config w]
    getSeries_sent [of net penv seriesId startYear endYear config w]
  by (simp add: getMultipleSeries_small fetchSeriesData_array build_request_def)

text \<open>
  Two identifiers in descending order: the array comes back ascending, and the one
  request that is sent lists them ascending.
\<close>

theorem seriesIds_sorted_in_place_witness:
  "length [''LNS14000000'', ''CUSR0000SA0''] \<le> maxSeriesPerRequest (getConfig Map.empty no_overrides) \<and>
   fst (snd (getMultipleSeries (answering mockBLSResponse) Map.empty [''LNS14000000'', ''CUSR0000SA0'']
               None None no_overrides world0)) = [''CUSR0000SA0'', ''LNS14000000''] \<and>
   map (\<lambda>rq. seriesid (body rq))
     (sent (snd (snd (getMultipleSeries (answering mockBLSResponse) Map.empty [''LNS14000000'', ''CUSR0000SA0'']
               None None no_overrides world0)))) = [[''CUSR0000SA0'', ''LNS14000000'']]"
  using seriesIds_sorted_in_place [where seriesIds = "[''LNS14000000'', ''CUSR0000SA0'']"
      and penv = Map.empty and config = no_overrides and net = "answering mockBLSResponse"
      and startYear = None and endYear = None and w = world0 and seriesId = "''CUSR0000SA0''"]
  by (simp add: eval_defs run_defs)


subsection \<open>C8: a series the provider did not return is absent, not an error\<close>

text \<open>
  Claim C8. When the cache does not answer and the exchange returns a response with a
  2xx status whose envelope reports \<open>REQUEST_SUCCEEDED\<close>, \<open>getSeries\<close> has sent the
  request for the one-element list of its identifier (once, or more often when attempts
  were retried), and returns what a search of the envelope's series for the first one
  with that identifier finds; the state it leaves is the one after the exchange, with the
  envelope's series stored under the request's key when caching is on. So when no series
  of the envelope has the identifier, the result is absent (\<open>null\<close>): a result, not an
  error; and a series that is found has the identifier asked for. An envelope without
  \<open>Results\<close> counts as an empty list of series.
\<close>

theorem getSeries_searches_the_returned_list:
  assumes "cache_lookup (getConfig penv config) (fst (getCacheKey [seriesId] startYear endYear)) w = None"
    and "fetchWithRetry net (build_request (getConfig penv config) [seriesId] startYear endYear)
           (getConfig penv config) w = (Inr response, w1)"
    and "ok response" and "json response = Inr d" and "api_status d = ''REQUEST_SUCCEEDED''"
  shows "getSeries net penv seriesId startYear endYear config w =
           (Inr (find (\<lambda>s. seriesID s = seriesId)
                   (case Results_series d of None \<Rightarrow> [] | Some ss \<Rightarrow> ss)),
            if enableCache (getConfig penv config)
            then w1\<lparr>cache := (cache w1)
                      (fst (getCacheKey [seriesId] startYear endYear)
                         \<mapsto> \<lparr>cached_data = (case Results_series d of None \<Rightarrow> [] | Some ss \<Rightarrow> ss),
                             timestamp = now w1\<rparr>)\<rparr>
            else w1) \<and>
         (\<exists>k. sent w1 = sent w @ replicate (Suc k)
                  (build_request (getConfig penv config) [seriesId] startYear endYear)) \<and>
         seriesid (body (build_request (getConfig penv config) [seriesId] startYear endYear)) = [seriesId] \<and>
         ((\<forall>x \<in> set (case Results_series d of None \<Rightarrow> [] | Some ss \<Rightarrow> ss). seriesID x \<noteq> seriesId)
          \<longrightarrow> fst (getSeries net penv seriesId startYear endYear config w) = Inr None) \<and>
         (\<forall>x. find (\<lambda>s. seriesID s = seriesId)
                 (case Results_series d of None \<Rightarrow> [] | Some ss \<Rightarrow> ss) = Some x
              \<longrightarrow> fst (getSeries net penv seriesId startYear endYear config w) = Inr (Some x) \<and>
                  seriesID x = seriesId)"
proof -
  let ?fc = "getConfig penv config"
  let ?rq = "build_request ?fc [seriesId] startYear endYear"
  let ?ss = "case Results_series d of None \<Rightarrow> [] | Some ss \<Rightarrow> ss"
  have r: "read_response response = Inr ?ss"
    using assms(3-5) by (simp add: read_response_def)
  have run: "getSeries net penv seriesId startYear endYear config w =
           (Inr (find (\<lambda>s. seriesID s = seriesId) ?ss),
            if enableCache ?fc
            then w1\<lparr>cache := (cache w1)
                      (fst (getCacheKey [seriesId] startYear endYear)
                         \<mapsto> \<lparr>cached_data = ?ss, timestamp = now w1\<rparr>)\<rparr>
            else w1)"
    using assms(1,2) r by (simp add: getSeries_def fetchSeriesData_miss)
  from assms(2) have fst_f: "fst (retry_loop net ?rq ?fc 0 None w) = Inr response"
    and snd_f: "snd (retry_loop net ?rq ?fc 0 None w) = w1"
    by (simp_all add: fetchWithRetry_def)
  from retry_loop_Inr_sent [OF fst_f] snd_f
  have one: "\<exists>k. sent w1 = sent w @ replicate (Suc k) ?rq" by simp
  have body: "seriesid (body ?rq) = [seriesId]" by (simp add: build_request_def)
  have none: "fst (getSeries net penv seriesId startYear endYear config w) = Inr None"
    if "\<forall>x \<in> set ?ss. seriesID x \<noteq> seriesId"
  proof -
    from that have "find (\<lambda>s. seriesID s = seriesId) ?ss = None"
      unfolding find_None_iff by blast
    with run show ?thesis by simp
  qed
  have some: "fst (getSeries net penv seriesId startYear endYear config w) = Inr (Some x) \<and>
              seriesID x = seriesId"
    if "find (\<lambda>s. seriesID s = seriesId) ?ss = Some x" for x
    using that run by (auto simp: find_Some_iff)
  from run one body none some show ?thesis by blast
qed


text \<open>
  The unit tests "should return null for non-existent series" and "should fetch a single
  series successfully": the sample response holds \<open>CUSR0000SA0\<close> only. The request for
  \<open>NONEXISTENT\<close> sends one request that lists \<open>NONEXISTENT\<close>, returns absent and caches the
  series returned; the request for \<open>CUSR0000SA0\<close> returns that series.
\<close>

theorem getSeries_searches_the_returned_list_witness:
  "cache_lookup (getConfig Map.empty no_overrides)
     (fst (getCacheKey [''NONEXISTENT''] (Some 2023) (Some 2023))) world0 = None \<and>
   fetchWithRetry (answering mockBLSResponse) nonexistent_request
     (getConfig Map.empty no_overrides) world0
     = (Inr (ok_response mockBLSResponse), world0\<lparr>sent := [nonexistent_request]\<rparr>) \<and>
   ok (ok_response mockBLSResponse) \<and>
   json (ok_response mockBLSResponse) = Inr mockBLSResponse \<and>
   api_status mockBLSResponse = ''REQUEST_SUCCEEDED'' \<and>
   map seriesID (the (Results_series mockBLSResponse)) = [''CUSR0000SA0''] \<and>
   seriesid (body nonexistent_request) = [''NONEXISTENT''] \<and>
   getSeries (answering mockBLSResponse) Map.empty ''NONEXISTENT'' (Some 2023) (Some 2023)
       no_overrides world0
     = (Inr None,
        world0\<lparr>sent := [nonexistent_request],
               cache := [''NONEXISTENT_2023_2023'' \<mapsto>
                           \<lparr>cached_data = the (Results_series mockBLSResponse), timestamp = 0\<rparr>]\<rparr>) \<and>
   getSeries (answering mockBLSResponse) Map.empty ''CUSR0000SA0'' (Some 2023) (Some 2023)
       no_overrides world0
     = (Inr (Some (hd (the (Results_series mockBLSResponse)))), after_first_call)"
proof -
  let ?fc = "getConfig Map.empty no_overrides"
  have 1: "cache_lookup ?fc (fst (getCacheKey [''NONEXISTENT''] (Some 2023) (Some 2023))) world0 = None"
    by (simp add: eval_defs)
  have 2: "fetchWithRetry (answering mockBLSResponse)
     (build_request ?fc [''NONEXISTENT''] (Some 2023) (Some 2023)) ?fc world0
     = (Inr (ok_response mockBLSResponse), world0\<lparr>sent := [nonexistent_request]\<rparr>)"
    by (simp add: nonexistent_request_def eval_defs fetchWithRetry_def retry_loop.simps do_fetch_def
        answering_def ok_response_def)
  have 3: "ok (ok_response mockBLSResponse)" by (simp add: ok_def ok_response_def)
  have 4: "json (ok_response mockBLSResponse) = Inr mockBLSResponse" by (simp add: ok_response_def)
  have 5: "api_status mockBLSResponse = ''REQUEST_SUCCEEDED''" by (simp add: mockBLSResponse_def)
  have 6: "map seriesID (the (Results_series mockBLSResponse)) = [''CUSR0000SA0'']"
    by (simp add: mockBLSResponse_def)
  have k: "fst (getCacheKey [''NONEXISTENT''] (Some 2023) (Some 2023)) = ''NONEXISTENT_2023_2023''"
    by (simp add: eval_defs)
  have en: "enableCache ?fc" by (simp add: eval_defs)
  have ss: "(case Results_series mockBLSResponse of None \<Rightarrow> [] | Some ss \<Rightarrow> ss)
              = the (Results_series mockBLSResponse)"
    by (simp add: mockBLSResponse_def)
  have nf: "find (\<lambda>s. seriesID s = ''NONEXISTENT'') (the (Results_series mockBLSResponse)) = None"
    by (simp add: mockBLSResponse_def)
  from getSeries_searches_the_returned_list [OF 1 2 3 4 5]
  have a: "getSeries (answering mockBLSResponse) Map.empty ''NONEXISTENT'' (Some 2023) (Some 2023)
       no_overrides world0
     = (Inr None,
        world0\<lparr>sent := [nonexistent_request],
               cache := [''NONEXISTENT_2023_2023'' \<mapsto>
                           \<lparr>cached_data = the (Results_series mockBLSResponse), timestamp = 0\<rparr>]\<rparr>)"
    and b: "seriesid (body nonexistent_request) = [''NONEXISTENT'']"
    unfolding k ss nf by (simp_all add: en nonexistent_request_def world0_def)
  have p1: "cache_lookup ?fc (fst (getCacheKey [''CUSR0000SA0''] (Some 2023) (Some 2023))) world0 = None"
    by (simp add: eval_defs)
  have p2: "fetchWithRetry (answering mockBLSResponse)
     (build_request ?fc [''CUSR0000SA0''] (Some 2023) (Some 2023)) ?fc world0
     = (Inr (ok_response mockBLSResponse), world0\<lparr>sent := [default_request]\<rparr>)"
    by (simp add: default_request_def eval_defs fetchWithRetry_def retry_loop.simps do_fetch_def
        answering_def ok_response_def)
  have k': "fst (getCacheKey [''CUSR0000SA0''] (Some 2023) (Some 2023)) = ''CUSR0000SA0_2023_2023''"
    by (simp add: eval_defs)
  have f: "find (\<lambda>s. seriesID s = ''CUSR0000SA0'') (the (Results_series mockBLSResponse))
             = Some (hd (the (Results_series mockBLSResponse)))"
    by (simp add: mockBLSResponse_def)
  from getSeries_searches_the_returned_list [OF p1 p2 3 4 5]
  have c: "getSeries (answering mockBLSResponse) Map.empty ''CUSR0000SA0'' (Some 2023) (Some 2023)
       no_overrides world0
     = (Inr (Some (hd (the (Results_series mockBLSResponse)))), after_first_call)"
    unfolding k' ss f by (simp add: en after_first_call_eq world0_def)
  from 1 2 3 4 5 6 a b c show ?thesis
    by (simp add: nonexistent_request_def)
qed

subsection \<open>C9: no enrichment, no network call\<close>

text \<open>
  Claim C9. \<open>getJobSpecificEconomicData\<close> returns the empty list, and leaves the state as
  it was (no call of \<open>fetch\<close>, no sleep, no change to the cache), whenever enrichment is
  disabled (\<open>BLS_ENABLED\<close> is \<open>false\<close>), or no mapping has the career's identifier, or the
  mapping found has no series identifier that is set and non-empty. None of these is an
  error. The statement holds for every table of mappings, the one of the source included
  (for which the third case does not arise: each of its three entries names three series).
\<close>

theorem no_enrichment_no_network:
  assumes "\<not> enabled (getBLSConfig penv) \<or>
           getBlsMappingForCareer_in mappings cid = None \<or>
           (\<exists>mapping. getBlsMappingForCareer_in mappings cid = Some mapping \<and> wantedSeries mapping = [])"
  shows "getJobSpecificEconomicData_in mappings net penv currentYear isoNow cid w = (Inr [], w)"
  using assms by (auto simp: getJobSpecificEconomicData_in_def)

text \<open>
  One example for each case: enrichment disabled, a career the source's table does not
  have, and a table whose entry for the career names no series.
\<close>

theorem no_enrichment_no_network_witness:
  "\<not> enabled (getBLSConfig [''BLS_ENABLED'' \<mapsto> ''false'']) \<and>
   getJobSpecificEconomicData (answering mockBLSResponse) [''BLS_ENABLED'' \<mapsto> ''false''] 2026 ''t''
       ''rn-001'' world0 = (Inr [], world0) \<and>
   getBlsMappingForCareer ''plumber-001'' = None \<and>
   getJobSpecificEconomicData (answering mockBLSResponse) Map.empty 2026 ''t'' ''plumber-001'' world0
     = (Inr [], world0) \<and>
   getBlsMappingForCareer_in
       [\<lparr>careerId = ''x-001'', cpi = None, unemployment = Some [], wages = None\<rparr>] ''x-001''
     = Some \<lparr>careerId = ''x-001'', cpi = None, unemployment = Some [], wages = None\<rparr> \<and>
   wantedSeries \<lparr>careerId = ''x-001'', cpi = None, unemployment = Some [], wages = None\<rparr> = [] \<and>
   getJobSpecificEconomicData_in
       [\<lparr>careerId = ''x-001'', cpi = None, unemployment = Some [], wages = None\<rparr>]
       (answering mockBLSResponse) Map.empty 2026 ''t'' ''x-001'' world0 = (Inr [], world0)"
proof -
  have 1: "\<not> enabled (getBLSConfig [''BLS_ENABLED'' \<mapsto> ''false''])"
    by (simp add: getBLSConfig_def)
  have 2: "getBlsMappingForCareer_in CAREER_BLS_MAPPINGS ''plumber-001'' = None"
    by (simp add: getBlsMappingForCareer_in_def CAREER_BLS_MAPPINGS_def)
  have 3: "getBlsMappingForCareer_in
       [\<lparr>careerId = ''x-001'', cpi = None, unemployment = Some [], wages = None\<rparr>] ''x-001''
     = Some \<lparr>careerId = ''x-001'', cpi = None, unemployment = Some [], wages = None\<rparr>"
    by (simp add: getBlsMappingForCareer_in_def)
  have 4: "wantedSeries \<lparr>careerId = ''x-001'', cpi = None, unemployment = Some [], wages = None\<rparr> = []"
    by (simp add: wantedSeries_def)
  show ?thesis
    using 1 2 3 4
      no_enrichment_no_network [where penv = "[''BLS_ENABLED'' \<mapsto> ''false'']"
        and mappings = CAREER_BLS_MAPPINGS and cid = "''rn-001''"
        and net = "answering mockBLSResponse" and currentYear = 2026 and isoNow = "''t''" and w = world0]
      no_enrichment_no_network [where penv = Map.empty
        and mappings = CAREER_BLS_MAPPINGS and cid = "''plumber-001''"
        and net = "answering mockBLSResponse" and currentYear = 2026 and isoNow = "''t''" and w = world0]
      no_enrichment_no_network [where penv = Map.empty
        and mappings = "[\<lparr>careerId = ''x-001'', cpi = None, unemployment = Some [], wages = None\<rparr>]"
        and cid = "''x-001''"
        and net = "answering mockBLSResponse" and currentYear = 2026 and isoNow = "''t''" and w = world0]
    by (simp add: getJobSpecificEconomicData_def getBlsMappingForCareer_def)
qed

subsection \<open>C6: which settings the environment supplies\<close>

text \<open>
  Claim C6, on the code. \<open>getConfig\<close> takes the credential and the caching flag from the
  environment, below the explicit overrides and above the defaults. The cache TTL, the
  retry ceiling and the retry base delay are never read from the environment by the
  client: without an override they are the defaults 3600000, 3 and 1000, whatever the
  environment holds. \<open>getBLSConfig\<close> does parse \<open>BLS_CACHE_TTL_MS\<close>,
  \<open>BLS_RETRY_MAX_ATTEMPTS\<close> and \<open>BLS_RETRY_BASE_DELAY_MS\<close>, but the only field of its result
  that is read is \<open>enabled\<close>, and the service calls \<open>getMultipleSeries\<close> without overrides.
\<close>

theorem environment_ttl_and_retry_settings_not_read:
  "apiKey (getConfig penv config) =
     (case apiKey_opt config of
        None \<Rightarrow> (case penv ''BLS_API_KEY'' of None \<Rightarrow> '''' | Some v \<Rightarrow> v)
      | Some v \<Rightarrow> v) \<and>
   enableCache (getConfig penv config) =
     (case enableCache_opt config of
        None \<Rightarrow> penv ''BLS_CACHE_ENABLED'' \<noteq> Some ''false''
      | Some v \<Rightarrow> v) \<and>
   cacheTTL (getConfig penv config) = (case cacheTTL_opt config of None \<Rightarrow> 3600000 | Some v \<Rightarrow> v) \<and>
   maxRetries (getConfig penv config) = (case maxRetries_opt config of None \<Rightarrow> 3 | Some v \<Rightarrow> v) \<and>
   retryDelay (getConfig penv config) = (case retryDelay_opt config of None \<Rightarrow> 1000 | Some v \<Rightarrow> v) \<and>
   cache_ttlMs (getBLSConfig [''BLS_CACHE_TTL_MS'' \<mapsto> ''5'', ''BLS_RETRY_MAX_ATTEMPTS'' \<mapsto> ''7'',
                              ''BLS_RETRY_BASE_DELAY_MS'' \<mapsto> ''20'']) = Some 5 \<and>
   cacheTTL (getConfig [''BLS_CACHE_TTL_MS'' \<mapsto> ''5'', ''BLS_RETRY_MAX_ATTEMPTS'' \<mapsto> ''7'',
                        ''BLS_RETRY_BASE_DELAY_MS'' \<mapsto> ''20''] no_overrides) = 3600000 \<and>
   maxRetries (getConfig [''BLS_CACHE_TTL_MS'' \<mapsto> ''5'', ''BLS_RETRY_MAX_ATTEMPTS'' \<mapsto> ''7'',
                        ''BLS_RETRY_BASE_DELAY_MS'' \<mapsto> ''20''] no_overrides) = 3 \<and>
   retryDelay (getConfig [''BLS_CACHE_TTL_MS'' \<mapsto> ''5'', ''BLS_RETRY_MAX_ATTEMPTS'' \<mapsto> ''7'',
                        ''BLS_RETRY_BASE_DELAY_MS'' \<mapsto> ''20''] no_overrides) = 1000"
  by (simp add: getConfig_def spread_def DEFAULT_CONFIG_def no_overrides_def getBLSConfig_def
      env_or_def parseInt_def is_space_def digit_val_def digits_val_def upt_conv_Cons
      split: option.splits)


subsection \<open>C1: retries exhausted\<close>

text \<open>
  What \<open>fetchWithRetry\<close> does when every attempt has a retryable outcome (\<open>fetch\<close> rejects,
  or the response has status 429): it calls \<open>fetch\<close> \<open>nat maxRetries\<close> times with the same
  request, sleeps \<open>retryDelay * 2^k\<close> after attempt \<open>k\<close>, the last attempt included, leaves
  the cache alone and fails with a transient failure whose cause is the message of the
  last rejection ("Unknown error" when it is empty, or when no attempt was rejected).
\<close>

lemma fetchWithRetry_all_retryable:
  assumes "\<forall>k < nat (maxRetries config). retryable (net (length (sent w) + k) rq)"
  shows "\<exists>cause w1.
     fetchWithRetry net rq config w = (Inl (TransientFailure (maxRetries config) cause), w1) \<and>
     sent w1 = sent w @ replicate (nat (maxRetries config)) rq \<and>
     slept w1 = slept w @ map (\<lambda>k. retryDelay config * 2 ^ k) [0 ..< nat (maxRetries config)] \<and>
     cache w1 = cache w \<and>
     error_message (TransientFailure (maxRetries config) cause) =
       ''BLS API request failed after '' @ toString (maxRetries config) @ '' attempts: '' @ cause \<and>
     (\<forall>msg. 0 < maxRetries config \<and>
            net (length (sent w) + (nat (maxRetries config) - 1)) rq = Rejected msg \<longrightarrow>
            cause = (if msg = [] then ''Unknown error'' else msg)) \<and>
     ((\<forall>k < nat (maxRetries config). \<exists>response. net (length (sent w) + k) rq = Resolved response) \<longrightarrow>
      cause = ''Unknown error'') \<and>
     (\<forall>penv seriesId startYear endYear overrides.
        config = getConfig penv overrides \<and>
        rq = build_request config [seriesId] startYear endYear \<and>
        cache_lookup config (fst (getCacheKey [seriesId] startYear endYear)) w = None \<longrightarrow>
        getSeries net penv seriesId startYear endYear overrides w =
          (Inl (TransientFailure (maxRetries config) cause), w1))"
proof -
  let ?n = "nat (maxRetries config)"
  let ?outs = "answers net rq (length (sent w)) ?n"
  let ?cause = "cause_text (caught ?outs None)"
  let ?w1 = "w\<lparr>now := now w + (\<Sum>k<?n. max 0 (retryDelay config * 2 ^ (0 + k))),
        sent := sent w @ replicate ?n rq,
        slept := slept w @ map (\<lambda>k. retryDelay config * 2 ^ k) [0 ..< 0 + ?n]\<rparr>"
  have hyp: "\<forall>k. int (0 + k) < maxRetries config \<longrightarrow> retryable (net (length (sent w) + k) rq)"
    using assms by auto
  have run: "fetchWithRetry net rq config w = (Inl (TransientFailure (maxRetries config) ?cause), ?w1)"
    unfolding fetchWithRetry_def
    using hyp
    by (rule retry_loop_exhausted [where attempt = 0 and n = "nat (maxRetries config)"]) simp
  have msg: "error_message (TransientFailure (maxRetries config) ?cause) =
       ''BLS API request failed after '' @ toString (maxRetries config) @ '' attempts: '' @ ?cause"
    by (simp add: error_message_def)
  have last: "?cause = (if msg = [] then ''Unknown error'' else msg)"
    if "0 < maxRetries config" "net (length (sent w) + (?n - 1)) rq = Rejected msg" for msg
  proof -
    from that(1) obtain m where m: "?n = Suc m" by (cases ?n) auto
    with that(2) have "?outs = answers net rq (length (sent w)) m @ [Rejected msg]"
      by (simp add: answers_snoc)
    then show ?thesis by (simp add: caught_snoc_Rejected cause_text_def)
  qed
  have none: "?cause = ''Unknown error''"
    if "\<forall>k < ?n. \<exists>response. net (length (sent w) + k) rq = Resolved response"
  proof -
    from that have "\<forall>out \<in> set ?outs. \<exists>response. out = Resolved response"
      by (auto simp: set_answers)
    then have "caught ?outs None = None" by (rule caught_all_Resolved)
    then show ?thesis by (simp add: cause_text_def)
  qed
  have gs: "getSeries net penv seriesId startYear endYear overrides w =
          (Inl (TransientFailure (maxRetries config) ?cause), ?w1)"
    if "config = getConfig penv overrides" "rq = build_request config [seriesId] startYear endYear"
       "cache_lookup config (fst (getCacheKey [seriesId] startYear endYear)) w = None"
    for penv seriesId startYear endYear overrides
    using that run by (simp add: getSeries_def fetchSeriesData_miss)
  show ?thesis
    apply (rule exI [of _ ?cause], rule exI [of _ ?w1])
    apply (intro conjI)
           apply (rule run)
          apply simp
         apply simp
        apply simp
       apply (rule msg)
    using last apply blast
    using none apply blast
    using gs apply blast
    done
qed


text \<open>
  Claim C1, on the code, at \<open>maxRetries = 2\<close> and \<open>retryDelay = 10\<close>. With a \<open>fetch\<close> that
  always rejects (the unit test "should fail after max retries"), \<open>fetchWithRetry\<close> and
  \<open>getSeries\<close> fail with the transient failure after exactly two calls of \<open>fetch\<close>, as the
  claim says, and the cause is that of the last attempt. Against the claim: the code
  sleeps after the last attempt as well, 10 and then 20 for two attempts, where the
  claim has the sleeps between attempts; and when the last attempt is throttled the
  cause is not the last one: after a rejection followed by a 429 the failure names the
  rejection, "Network error", and after two 429s it says "Unknown error". Only the
  \<open>catch\<close> branch of the loop sets \<open>lastError\<close>.
\<close>

theorem exhausted_retries_on_the_code:
  "maxRetries (getConfig Map.empty two_tries) = 2 \<and>
   retryDelay (getConfig Map.empty two_tries) = 10 \<and>
   fetchWithRetry always_offline cpi_request (getConfig Map.empty two_tries) world0
     = (Inl (TransientFailure 2 ''Network error''),
        world0\<lparr>now := 30, sent := [cpi_request, cpi_request], slept := [10, 20]\<rparr>) \<and>
   offline_then_throttled 0 cpi_request = Rejected ''Network error'' \<and>
   offline_then_throttled 1 cpi_request = Resolved too_many_requests \<and>
   fetchWithRetry offline_then_throttled cpi_request (getConfig Map.empty two_tries) world0
     = (Inl (TransientFailure 2 ''Network error''),
        world0\<lparr>now := 30, sent := [cpi_request, cpi_request], slept := [10, 20]\<rparr>) \<and>
   fetchWithRetry always_throttled cpi_request (getConfig Map.empty two_tries) world0
     = (Inl (TransientFailure 2 ''Unknown error''),
        world0\<lparr>now := 30, sent := [cpi_request, cpi_request], slept := [10, 20]\<rparr>) \<and>
   error_message (TransientFailure 2 ''Unknown error'')
     = ''BLS API request failed after 2 attempts: Unknown error'' \<and>
   getSeries always_offline Map.empty ''CUSR0000SA0'' (Some 2023) (Some 2023) two_tries world0
     = (Inl (TransientFailure 2 ''Network error''),
        world0\<lparr>now := 30, sent := [cpi_request, cpi_request], slept := [10, 20]\<rparr>)"
  by (simp add: always_offline_def offline_then_throttled_def always_throttled_def
      too_many_requests_def two_tries_def cpi_request_def eval_defs run_defs cause_text_def
      error_message_def)

subsection \<open>C4: the batches partition the request\<close>

text \<open>
  The batches. For every list of identifiers and every positive ceiling (the code uses
  25 without a credential and 50 with one), the batches \<open>getMultipleSeries\<close> works on exist
  (the loop ends), are consecutive slices of the input in input order, each no longer
  than the ceiling, and their concatenation is the input. Sixty identifiers under the
  ceiling 25 give three batches of 25, 25 and 10. \<open>getMultipleSeries\<close> is one
  \<open>fetchSeriesData\<close> per batch, in batch order, with the results concatenated in that order.
\<close>

lemma split_partitions:
  assumes "0 < maxBatchSize"
  shows "\<exists>batches.
     split seriesIds maxBatchSize = Some batches \<and>
     concat batches = seriesIds \<and>
     (\<forall>b \<in> set batches. length b \<le> maxBatchSize) \<and>
     (\<forall>k < length batches.
        batches ! k = slice seriesIds (k * maxBatchSize) (k * maxBatchSize + maxBatchSize)) \<and>
     (length seriesIds = 60 \<and> maxBatchSize = 25 \<longrightarrow> map length batches = [25, 25, 10]) \<and>
     (\<forall>net penv startYear endYear config w.
        maxBatchSize = maxSeriesPerRequest (getConfig penv config) \<longrightarrow>
        (fst (getMultipleSeries net penv seriesIds startYear endYear config w),
         snd (snd (getMultipleSeries net penv seriesIds startYear endYear config w)))
          = fetch_batches net penv batches startYear endYear config [] w)"
proof (cases "length seriesIds \<le> maxBatchSize")
  case True
  have sp: "split seriesIds maxBatchSize = Some [seriesIds]"
    using True by (simp add: split_def)
  have link: "(fst (getMultipleSeries net penv seriesIds startYear endYear config w),
         snd (snd (getMultipleSeries net penv seriesIds startYear endYear config w)))
          = fetch_batches net penv [seriesIds] startYear endYear config [] w"
    if "maxBatchSize = maxSeriesPerRequest (getConfig penv config)"
    for net penv startYear endYear config w
    using True that
    by (cases "fetchSeriesData net penv seriesIds startYear endYear config w")
       (auto simp: getMultipleSeries_small split: sum.splits)
  show ?thesis
    apply (rule exI [of _ "[seriesIds]"])
    using sp True link by (simp add: slice_def)
next
  case False
  let ?bs = "chunks maxBatchSize seriesIds"
  have sp: "split seriesIds maxBatchSize = Some ?bs"
    using False assms by (simp add: split_chunks)
  have nth: "\<forall>k < length ?bs.
        ?bs ! k = slice seriesIds (k * maxBatchSize) (k * maxBatchSize + maxBatchSize)"
    by (simp add: chunks_nth slice_def)
  have len: "\<forall>b \<in> set ?bs. length b \<le> maxBatchSize"
    by (simp add: length_chunks_le)
  have sixty: "length seriesIds = 60 \<and> maxBatchSize = 25 \<longrightarrow> map length ?bs = [25, 25, 10]"
    using chunks_60_25 by blast
  have link: "(fst (getMultipleSeries net penv seriesIds startYear endYear config w),
         snd (snd (getMultipleSeries net penv seriesIds startYear endYear config w)))
          = fetch_batches net penv ?bs startYear endYear config [] w"
    if "maxBatchSize = maxSeriesPerRequest (getConfig penv config)"
    for net penv startYear endYear config w
    using False that
    by (simp add: getMultipleSeries_def Let_def batch_loop_chunks split: prod.splits)
  show ?thesis
    apply (rule exI [of _ ?bs])
    using sp concat_chunks [OF assms] nth len sixty link by blast
qed

text \<open>
  Claim C4, on the code. Sixty identifiers in descending order, no credential, and a
  provider that answers each request with the series in the order of the request. The
  list is split as the claim says, into the slices \<open>[0, 25)\<close>, \<open>[25, 50)\<close> and \<open>[50, 60)\<close> of
  sizes 25, 25 and 10, and three requests are sent. Against the claim: \<open>getCacheKey\<close>
  sorts each batch in place before the request body is built from it, so each request
  lists its batch in ascending order, and the concatenated results are the series of
  each batch in ascending order, not in the order of the input. The caller's array is
  as it was (the batches are copies).
\<close>

theorem batches_sorted_before_sending:
  "length (rev sixty_ids) = 60 \<and>
   maxSeriesPerRequest (getConfig Map.empty no_overrides) = 25 \<and>
   split (rev sixty_ids) 25
     = Some [slice (rev sixty_ids) 0 25, slice (rev sixty_ids) 25 50, slice (rev sixty_ids) 50 75] \<and>
   map length [slice (rev sixty_ids) 0 25, slice (rev sixty_ids) 25 50, slice (rev sixty_ids) 50 75]
     = [25, 25, 10] \<and>
   map (\<lambda>rq. seriesid (body rq))
     (sent (snd (snd (getMultipleSeries echo Map.empty (rev sixty_ids) None None no_overrides world0))))
     = [sort (slice (rev sixty_ids) 0 25), sort (slice (rev sixty_ids) 25 50),
        sort (slice (rev sixty_ids) 50 75)] \<and>
   fst (getMultipleSeries echo Map.empty (rev sixty_ids) None None no_overrides world0)
     = Inr (map (\<lambda>i. \<lparr>seriesID = i, data = []\<rparr>)
             (sort (slice (rev sixty_ids) 0 25) @ sort (slice (rev sixty_ids) 25 50) @
              sort (slice (rev sixty_ids) 50 75))) \<and>
   fst (getMultipleSeries echo Map.empty (rev sixty_ids) None None no_overrides world0)
     \<noteq> Inr (map (\<lambda>i. \<lparr>seriesID = i, data = []\<rparr>) (rev sixty_ids)) \<and>
   fst (snd (getMultipleSeries echo Map.empty (rev sixty_ids) None None no_overrides world0))
     = rev sixty_ids"
  by code_simp

subsection \<open>C7: an entry older than the TTL is a miss\<close>

text \<open>
  Claim C7. Expiry is decided at lookup time, from the age of the entry alone. When the
  cache holds an entry for the key whose age \<open>now - timestamp\<close> has reached \<open>cacheTTL\<close>
  (the claim's "exceeds" included), the lookup misses, and \<open>fetchSeriesData\<close> does what it
  does when the entry is not there: same result, same array, same calls of \<open>fetch\<close>, same
  sleeps, and the same final state, but for the stale entry itself, which is still in the
  cache when nothing replaced it (the call failed, or caching is off) and which a cache
  without it does not have. With a retry ceiling of at least 1 the call sends a request.
\<close>

theorem stale_entry_is_a_miss:
  assumes "cache w (fst (getCacheKey seriesIds startYear endYear)) = Some entry"
    and "cacheTTL (getConfig penv config) \<le> now w - timestamp entry"
  shows "cache_lookup (getConfig penv config) (fst (getCacheKey seriesIds startYear endYear)) w = None \<and>
     fetchSeriesData net penv seriesIds startYear endYear config
         (w\<lparr>cache := (cache w)(fst (getCacheKey seriesIds startYear endYear) := None)\<rparr>) =
       (case fetchSeriesData net penv seriesIds startYear endYear config w of
          (Inl err, a, w1) \<Rightarrow>
            (Inl err, a, w1\<lparr>cache := (cache w1)(fst (getCacheKey seriesIds startYear endYear) := None)\<rparr>)
        | (Inr series, a, w1) \<Rightarrow>
            (Inr series, a,
             if enableCache (getConfig penv config) then w1
             else w1\<lparr>cache := (cache w1)(fst (getCacheKey seriesIds startYear endYear) := None)\<rparr>)) \<and>
     (0 < maxRetries (getConfig penv config) \<longrightarrow>
      (\<exists>k. sent (snd (snd (fetchSeriesData net penv seriesIds startYear endYear config w))) =
            sent w @ replicate (Suc k)
              (build_request (getConfig penv config) (sort seriesIds) startYear endYear)))"
proof -
  let ?fc = "getConfig penv config"
  let ?key = "fst (getCacheKey seriesIds startYear endYear)"
  let ?rq = "build_request ?fc (sort seriesIds) startYear endYear"
  let ?c0 = "(cache w)(?key := None)"
  have miss: "cache_lookup ?fc ?key w = None"
    using assms by (rule cache_lookup_stale)
  have miss0: "cache_lookup ?fc ?key (w\<lparr>cache := ?c0\<rparr>) = None"
    by (rule cache_lookup_removed)
  obtain r wr where run: "fetchWithRetry net ?rq ?fc w = (r, wr)"
    by (cases "fetchWithRetry net ?rq ?fc w")
  then have run0: "fetchWithRetry net ?rq ?fc (w\<lparr>cache := ?c0\<rparr>) = (r, wr\<lparr>cache := ?c0\<rparr>)"
    by (simp add: fetchWithRetry_def retry_loop_cache_indep)
  have cwr: "cache wr = cache w"
    using run retry_loop_cache [of net ?rq ?fc 0 None w] by (simp add: fetchWithRetry_def)
  have eq: "fetchSeriesData net penv seriesIds startYear endYear config (w\<lparr>cache := ?c0\<rparr>) =
       (case fetchSeriesData net penv seriesIds startYear endYear config w of
          (Inl err, a, w1) \<Rightarrow> (Inl err, a, w1\<lparr>cache := (cache w1)(?key := None)\<rparr>)
        | (Inr series, a, w1) \<Rightarrow>
            (Inr series, a,
             if enableCache ?fc then w1 else w1\<lparr>cache := (cache w1)(?key := None)\<rparr>))"
    unfolding fetchSeriesData_miss [OF miss] fetchSeriesData_miss [OF miss0] run run0
    by (simp add: cwr split: sum.splits)
  have new: "\<exists>k. sent (snd (snd (fetchSeriesData net penv seriesIds startYear endYear config w))) =
            sent w @ replicate (Suc k) ?rq" if "0 < maxRetries ?fc"
  proof -
    from that have "int 0 < maxRetries ?fc" by simp
    from retry_loop_first_sent [OF this, of net ?rq None w] run
    obtain k where "sent wr = sent w @ replicate (Suc k) ?rq"
      by (auto simp: fetchWithRetry_def)
    then have "sent (snd (snd (fetchSeriesData net penv seriesIds startYear endYear config w))) =
            sent w @ replicate (Suc k) ?rq"
      unfolding fetchSeriesData_miss [OF miss] run by (simp split: sum.splits)
    then show ?thesis ..
  qed
  from miss eq new show ?thesis by blast
qed


text \<open>
  Specification property 3: after the first call the entry has timestamp 0 and the TTL
  is 3600000. A repeat at time 3599999 sends nothing; a repeat at time 3600001 sends the
  request again and stores the result with the new timestamp.
\<close>

theorem stale_entry_is_a_miss_witness:
  "fst (getCacheKey [''CUSR0000SA0''] (Some 2023) (Some 2023)) = ''CUSR0000SA0_2023_2023'' \<and>
   cache (after_first_call\<lparr>now := 3600001\<rparr>) ''CUSR0000SA0_2023_2023''
     = Some \<lparr>cached_data = the (Results_series mockBLSResponse), timestamp = 0\<rparr> \<and>
   cacheTTL (getConfig Map.empty no_overrides) = 3600000 \<and>
   sent after_first_call = [default_request] \<and>
   sent (snd (snd (fetchSeriesData (answering mockBLSResponse) Map.empty [''CUSR0000SA0'']
                     (Some 2023) (Some 2023) no_overrides (after_first_call\<lparr>now := 3599999\<rparr>))))
     = [default_request] \<and>
   sent (snd (snd (fetchSeriesData (answering mockBLSResponse) Map.empty [''CUSR0000SA0'']
                     (Some 2023) (Some 2023) no_overrides (after_first_call\<lparr>now := 3600001\<rparr>))))
     = [default_request, default_request] \<and>
   cache (snd (snd (fetchSeriesData (answering mockBLSResponse) Map.empty [''CUSR0000SA0'']
                     (Some 2023) (Some 2023) no_overrides (after_first_call\<lparr>now := 3600001\<rparr>))))
       ''CUSR0000SA0_2023_2023''
     = Some \<lparr>cached_data = the (Results_series mockBLSResponse), timestamp = 3600001\<rparr>"
proof -
  let ?w = "after_first_call\<lparr>now := 3600001\<rparr>"
  let ?entry = "\<lparr>cached_data = the (Results_series mockBLSResponse), timestamp = 0\<rparr>"
  have k: "fst (getCacheKey [''CUSR0000SA0''] (Some 2023) (Some 2023)) = ''CUSR0000SA0_2023_2023''"
    by (simp add: eval_defs)
  have h1: "cache ?w (fst (getCacheKey [''CUSR0000SA0''] (Some 2023) (Some 2023))) = Some ?entry"
    unfolding k by (simp add: after_first_call_eq)
  have ttl: "cacheTTL (getConfig Map.empty no_overrides) = 3600000"
    by (simp add: eval_defs)
  have h2: "cacheTTL (getConfig Map.empty no_overrides) \<le> now ?w - timestamp ?entry"
    unfolding ttl by simp
  have m: "0 < maxRetries (getConfig Map.empty no_overrides)"
    by (simp add: eval_defs)
  from stale_entry_is_a_miss [OF h1 h2, where net = "answering mockBLSResponse"] m
  obtain n where
    "sent (snd (snd (fetchSeriesData (answering mockBLSResponse) Map.empty [''CUSR0000SA0'']
                     (Some 2023) (Some 2023) no_overrides ?w)))
       = sent ?w @ replicate (Suc n) default_request"
    unfolding default_request_def by auto
  moreover have "length (sent (snd (snd (fetchSeriesData (answering mockBLSResponse) Map.empty [''CUSR0000SA0'']
                     (Some 2023) (Some 2023) no_overrides ?w)))) = 2"
    by (simp add: after_first_call_eq eval_defs run_defs)
  ultimately have again: "sent (snd (snd (fetchSeriesData (answering mockBLSResponse) Map.empty [''CUSR0000SA0'']
                     (Some 2023) (Some 2023) no_overrides ?w))) = [default_request, default_request]"
    by (simp add: after_first_call_eq)
  have hit: "sent (snd (snd (fetchSeriesData (answering mockBLSResponse) Map.empty [''CUSR0000SA0'']
                     (Some 2023) (Some 2023) no_overrides (after_first_call\<lparr>now := 3599999\<rparr>))))
     = [default_request]"
    by (simp add: after_first_call_eq eval_defs run_defs)
  have stored: "cache (snd (snd (fetchSeriesData (answering mockBLSResponse) Map.empty [''CUSR0000SA0'']
                     (Some 2023) (Some 2023) no_overrides ?w))) ''CUSR0000SA0_2023_2023''
     = Some \<lparr>cached_data = the (Results_series mockBLSResponse), timestamp = 3600001\<rparr>"
    by (simp add: after_first_call_eq eval_defs run_defs)
  show ?thesis
    using k h1 ttl again hit stored by (simp add: after_first_call_eq)
qed


subsection \<open>C2: a repeated call is answered from the cache\<close>

text \<open>
  Claim C2, as the code has it: for a list no longer than the batch ceiling. With
  caching enabled, when a call of \<open>getMultipleSeries\<close> that the cache does not answer
  succeeds, it has made one exchange (one request, sent once, or more than once when
  attempts were retried; sent exactly once when the first answer was not retryable), and
  a second call with the same identifiers and year bounds at any time \<open>t\<close> within the TTL
  of the entry returns the same result and leaves the state as it was, whatever the
  network would answer: no call of \<open>fetch\<close>. The second call may pass the identifiers as
  they were, or the array as the first call left it (sorted).
\<close>

theorem repeated_call_served_from_cache:
  assumes "enableCache (getConfig penv config)"
    and "length seriesIds \<le> maxSeriesPerRequest (getConfig penv config)"
    and "cache_lookup (getConfig penv config) (fst (getCacheKey seriesIds startYear endYear)) w = None"
    and "getMultipleSeries net penv seriesIds startYear endYear config w = (Inr series, a, w1)"
    and "t - now w1 < cacheTTL (getConfig penv config)"
  shows "(\<exists>k. sent w1 = sent w @ replicate (Suc k)
                  (build_request (getConfig penv config) (sort seriesIds) startYear endYear)) \<and>
     (\<not> retryable (net (length (sent w))
                     (build_request (getConfig penv config) (sort seriesIds) startYear endYear)) \<longrightarrow>
      sent w1 = sent w @ [build_request (getConfig penv config) (sort seriesIds) startYear endYear]) \<and>
     a = sort seriesIds \<and>
     getMultipleSeries net2 penv seriesIds startYear endYear config (w1\<lparr>now := t\<rparr>)
       = (Inr series, a, w1\<lparr>now := t\<rparr>) \<and>
     getMultipleSeries net2 penv a startYear endYear config (w1\<lparr>now := t\<rparr>)
       = (Inr series, a, w1\<lparr>now := t\<rparr>)"
proof -
  let ?fc = "getConfig penv config"
  let ?key = "fst (getCacheKey seriesIds startYear endYear)"
  let ?rq = "build_request ?fc (sort seriesIds) startYear endYear"
  from assms(2,4) have run: "fetchSeriesData net penv seriesIds startYear endYear config w = (Inr series, a, w1)"
    by (simp add: getMultipleSeries_small)
  from fetchSeriesData_stored [OF assms(1,3) run] obtain response wr where
    f: "fetchWithRetry net ?rq ?fc w = (Inr response, wr)"
    and a: "a = sort seriesIds"
    and w1: "w1 = wr\<lparr>cache := (cache wr)(?key \<mapsto> \<lparr>cached_data = series, timestamp = now wr\<rparr>)\<rparr>"
    by blast
  from f have fst_f: "fst (retry_loop net ?rq ?fc 0 None w) = Inr response"
    and snd_f: "snd (retry_loop net ?rq ?fc 0 None w) = wr"
    by (simp_all add: fetchWithRetry_def)
  from retry_loop_Inr_sent [OF fst_f] snd_f w1
  have one: "\<exists>k. sent w1 = sent w @ replicate (Suc k) ?rq" by simp
  have pos: "int 0 < maxRetries ?fc"
    using fst_f retry_loop_Inr_positive [where attempt = 0 and config = ?fc] by blast
  have once: "sent w1 = sent w @ [?rq]" if "\<not> retryable (net (length (sent w)) ?rq)"
    using retry_loop_at_once [where attempt = 0 and config = ?fc and net = net and w = w
        and rq = ?rq and lastError = None] pos that snd_f w1 by simp
  have hit: "cache_lookup ?fc ?key (w1\<lparr>now := t\<rparr>) = Some series"
    using assms(1,5) w1 by (simp add: cache_lookup_def isCacheValid_def)
  have ka: "fst (getCacheKey a startYear endYear) = ?key"
    using a by (simp add: getCacheKey_def Let_def sort_cong_mset [of "sort seriesIds" seriesIds])
  have sa: "sort a = a" using a by (simp add: sort_cong_mset [of "sort seriesIds" seriesIds])
  have la: "length a \<le> maxSeriesPerRequest ?fc" using a assms(2) by simp
  have again: "getMultipleSeries net2 penv seriesIds startYear endYear config (w1\<lparr>now := t\<rparr>)
       = (Inr series, a, w1\<lparr>now := t\<rparr>)"
    using hit a by (simp add: getMultipleSeries_small [OF assms(2)] fetchSeriesData_hit)
  have again_a: "getMultipleSeries net2 penv a startYear endYear config (w1\<lparr>now := t\<rparr>)
       = (Inr series, a, w1\<lparr>now := t\<rparr>)"
    using hit sa by (simp add: getMultipleSeries_small [OF la] fetchSeriesData_hit ka)
  from one once a again again_a show ?thesis by blast
qed

text \<open>
  The unit test "should cache responses by default", through \<open>getMultipleSeries\<close>: one
  request in all, and the second call succeeds although the network is down.
\<close>

theorem repeated_call_served_from_cache_witness:
  "enableCache (getConfig Map.empty no_overrides) \<and>
   length [''CUSR0000SA0''] \<le> maxSeriesPerRequest (getConfig Map.empty no_overrides) \<and>
   cache_lookup (getConfig Map.empty no_overrides)
     (fst (getCacheKey [''CUSR0000SA0''] (Some 2023) (Some 2023))) world0 = None \<and>
   getMultipleSeries (answering mockBLSResponse) Map.empty [''CUSR0000SA0''] (Some 2023) (Some 2023)
       no_overrides world0
     = (Inr (the (Results_series mockBLSResponse)), [''CUSR0000SA0''], after_first_call) \<and>
   1000 - now after_first_call < cacheTTL (getConfig Map.empty no_overrides) \<and>
   sent after_first_call = sent world0 @ [default_request] \<and>
   getMultipleSeries always_offline Map.empty [''CUSR0000SA0''] (Some 2023) (Some 2023)
       no_overrides (after_first_call\<lparr>now := 1000\<rparr>)
     = (Inr (the (Results_series mockBLSResponse)), [''CUSR0000SA0''], after_first_call\<lparr>now := 1000\<rparr>)"
proof -
  let ?fc = "getConfig Map.empty no_overrides"
  have h1: "enableCache ?fc" by (simp add: eval_defs)
  have h2: "length [''CUSR0000SA0''] \<le> maxSeriesPerRequest ?fc" by (simp add: eval_defs)
  have h3: "cache_lookup ?fc (fst (getCacheKey [''CUSR0000SA0''] (Some 2023) (Some 2023))) world0 = None"
    by (simp add: eval_defs)
  have h4: "getMultipleSeries (answering mockBLSResponse) Map.empty [''CUSR0000SA0''] (Some 2023) (Some 2023)
       no_overrides world0
     = (Inr (the (Results_series mockBLSResponse)), [''CUSR0000SA0''], after_first_call)"
    by (simp add: after_first_call_eq default_request_def eval_defs run_defs)
  have h5: "1000 - now after_first_call < cacheTTL ?fc"
    by (simp add: after_first_call_eq eval_defs)
  have nr: "\<not> retryable (answering mockBLSResponse (length (sent world0))
              (build_request ?fc (sort [''CUSR0000SA0'']) (Some 2023) (Some 2023)))"
    by (simp add: retryable_def answering_def ok_response_def)
  from repeated_call_served_from_cache [OF h1 h2 h3 h4 h5, where ?net2.0 = always_offline] nr
  have "sent after_first_call = sent world0 @ [default_request]"
    and "getMultipleSeries always_offline Map.empty [''CUSR0000SA0''] (Some 2023) (Some 2023)
       no_overrides (after_first_call\<lparr>now := 1000\<rparr>)
     = (Inr (the (Results_series mockBLSResponse)), [''CUSR0000SA0''], after_first_call\<lparr>now := 1000\<rparr>)"
    by (simp_all add: default_request_def)
  with h1 h2 h3 h4 h5 show ?thesis by blast
qed

text \<open>
  For a list longer than the ceiling the claim fails: \<open>fetchSeriesData\<close> consults and fills
  the cache for each batch, under the batch's key. Twenty-six identifiers without a
  credential: the first call succeeds with two requests, not one; no entry exists for
  the key of the full list; the repeat sends nothing more.
\<close>

theorem split_request_fetched_per_batch_counterexample:
  "enableCache (getConfig Map.empty no_overrides) \<and>
   length twenty_six_ids = 26 \<and>
   maxSeriesPerRequest (getConfig Map.empty no_overrides) = 25 \<and>
   fst (getMultipleSeries echo Map.empty twenty_six_ids None None no_overrides world0)
     = Inr (map (\<lambda>i. \<lparr>seriesID = i, data = []\<rparr>) twenty_six_ids) \<and>
   length (sent (snd (snd (getMultipleSeries echo Map.empty twenty_six_ids None None no_overrides world0)))) = 2 \<and>
   cache_lookup (getConfig Map.empty no_overrides) (fst (getCacheKey twenty_six_ids None None))
     (snd (snd (getMultipleSeries echo Map.empty twenty_six_ids None None no_overrides world0))) = None \<and>
   length (sent (snd (snd (getMultipleSeries echo Map.empty twenty_six_ids None None no_overrides
     (snd (snd (getMultipleSeries echo Map.empty twenty_six_ids None None no_overrides world0))))))) = 2"
  by code_simp

subsection \<open>C3: where a result is stored\<close>

text \<open>
  Claim C3, as the code has it: for a list no longer than the batch ceiling and a call
  that the cache does not answer. With caching enabled, a successful call of
  \<open>getMultipleSeries\<close> leaves its result in the cache under the key computed from the
  identifiers and the year bounds of the call, with the time of storing as timestamp, and
  no other entry of the cache is touched.
\<close>

theorem result_stored_under_request_key:
  assumes "enableCache (getConfig penv config)"
    and "length seriesIds \<le> maxSeriesPerRequest (getConfig penv config)"
    and "cache_lookup (getConfig penv config) (fst (getCacheKey seriesIds startYear endYear)) w = None"
    and "getMultipleSeries net penv seriesIds startYear endYear config w = (Inr series, a, w1)"
  shows "cache w1 (fst (getCacheKey seriesIds startYear endYear))
           = Some \<lparr>cached_data = series, timestamp = now w1\<rparr> \<and>
         (\<forall>k. k \<noteq> fst (getCacheKey seriesIds startYear endYear) \<longrightarrow> cache w1 k = cache w k)"
proof -
  let ?fc = "getConfig penv config"
  let ?key = "fst (getCacheKey seriesIds startYear endYear)"
  let ?rq = "build_request ?fc (sort seriesIds) startYear endYear"
  from assms(2,4) have run: "fetchSeriesData net penv seriesIds startYear endYear config w = (Inr series, a, w1)"
    by (simp add: getMultipleSeries_small)
  from fetchSeriesData_stored [OF assms(1,3) run] obtain response wr where
    f: "fetchWithRetry net ?rq ?fc w = (Inr response, wr)"
    and w1: "w1 = wr\<lparr>cache := (cache wr)(?key \<mapsto> \<lparr>cached_data = series, timestamp = now wr\<rparr>)\<rparr>"
    by blast
  have "cache wr = cache w"
    using f retry_loop_cache [of net ?rq ?fc 0 None w] by (simp add: fetchWithRetry_def)
  with w1 show ?thesis by simp
qed


text \<open>A first call at time 42: the entry is stored with timestamp 42.\<close>

theorem result_stored_under_request_key_witness:
  "enableCache (getConfig Map.empty no_overrides) \<and>
   length [''CUSR0000SA0''] \<le> maxSeriesPerRequest (getConfig Map.empty no_overrides) \<and>
   cache_lookup (getConfig Map.empty no_overrides)
     (fst (getCacheKey [''CUSR0000SA0''] (Some 2023) (Some 2023))) (world0\<lparr>now := 42\<rparr>) = None \<and>
   getMultipleSeries (answering mockBLSResponse) Map.empty [''CUSR0000SA0''] (Some 2023) (Some 2023)
       no_overrides (world0\<lparr>now := 42\<rparr>)
     = (Inr (the (Results_series mockBLSResponse)), [''CUSR0000SA0''],
        after_first_call\<lparr>now := 42, cache := [''CUSR0000SA0_2023_2023'' \<mapsto>
           \<lparr>cached_data = the (Results_series mockBLSResponse), timestamp = 42\<rparr>]\<rparr>) \<and>
   fst (getCacheKey [''CUSR0000SA0''] (Some 2023) (Some 2023)) = ''CUSR0000SA0_2023_2023'' \<and>
   cache (after_first_call\<lparr>now := 42, cache := [''CUSR0000SA0_2023_2023'' \<mapsto>
           \<lparr>cached_data = the (Results_series mockBLSResponse), timestamp = 42\<rparr>]\<rparr>)
       ''CUSR0000SA0_2023_2023''
     = Some \<lparr>cached_data = the (Results_series mockBLSResponse), timestamp = 42\<rparr>"
proof -
  let ?fc = "getConfig Map.empty no_overrides"
  have h1: "enableCache ?fc" by (simp add: eval_defs)
  have h2: "length [''CUSR0000SA0''] \<le> maxSeriesPerRequest ?fc" by (simp add: eval_defs)
  have h3: "cache_lookup ?fc (fst (getCacheKey [''CUSR0000SA0''] (Some 2023) (Some 2023)))
              (world0\<lparr>now := 42\<rparr>) = None"
    by (simp add: eval_defs)
  have h4: "getMultipleSeries (answering mockBLSResponse) Map.empty [''CUSR0000SA0''] (Some 2023) (Some 2023)
       no_overrides (world0\<lparr>now := 42\<rparr>)
     = (Inr (the (Results_series mockBLSResponse)), [''CUSR0000SA0''],
        after_first_call\<lparr>now := 42, cache := [''CUSR0000SA0_2023_2023'' \<mapsto>
           \<lparr>cached_data = the (Results_series mockBLSResponse), timestamp = 42\<rparr>]\<rparr>)"
    by (simp add: after_first_call_eq default_request_def eval_defs run_defs)
  have k: "fst (getCacheKey [''CUSR0000SA0''] (Some 2023) (Some 2023)) = ''CUSR0000SA0_2023_2023''"
    by (simp add: eval_defs)
  from result_stored_under_request_key [OF h1 h2 h3 h4]
  have "cache (after_first_call\<lparr>now := 42, cache := [''CUSR0000SA0_2023_2023'' \<mapsto>
           \<lparr>cached_data = the (Results_series mockBLSResponse), timestamp = 42\<rparr>]\<rparr>)
       ''CUSR0000SA0_2023_2023''
     = Some \<lparr>cached_data = the (Results_series mockBLSResponse), timestamp = 42\<rparr>"
    unfolding k by simp
  with h1 h2 h3 h4 k show ?thesis by blast
qed

text \<open>
  Where the claim fails. A call for twenty-six identifiers succeeds and stores nothing
  under the key of the full list: the cache holds one entry for each batch, under the
  key of that batch. And a call answered from the cache stores nothing: at time 1000 the
  entry still has the timestamp 0 of the call that stored it.
\<close>

theorem result_not_stored_under_request_key_counterexample:
  "enableCache (getConfig Map.empty no_overrides) \<and>
   fst (getMultipleSeries echo Map.empty twenty_six_ids None None no_overrides world0)
     = Inr (map (\<lambda>i. \<lparr>seriesID = i, data = []\<rparr>) twenty_six_ids) \<and>
   cache (snd (snd (getMultipleSeries echo Map.empty twenty_six_ids None None no_overrides world0)))
     (fst (getCacheKey twenty_six_ids None None)) = None \<and>
   map_option (\<lambda>c. map seriesID (cached_data c))
     (cache (snd (snd (getMultipleSeries echo Map.empty twenty_six_ids None None no_overrides world0)))
       (fst (getCacheKey (slice twenty_six_ids 0 25) None None))) = Some (slice twenty_six_ids 0 25) \<and>
   map_option (\<lambda>c. map seriesID (cached_data c))
     (cache (snd (snd (getMultipleSeries echo Map.empty twenty_six_ids None None no_overrides world0)))
       (fst (getCacheKey (slice twenty_six_ids 25 50) None None))) = Some (slice twenty_six_ids 25 50) \<and>
   fst (getMultipleSeries always_offline Map.empty [''CUSR0000SA0''] (Some 2023) (Some 2023)
          no_overrides (after_first_call\<lparr>now := 1000\<rparr>))
     = Inr (the (Results_series mockBLSResponse)) \<and>
   map_option timestamp
     (cache (snd (snd (getMultipleSeries always_offline Map.empty [''CUSR0000SA0''] (Some 2023) (Some 2023)
          no_overrides (after_first_call\<lparr>now := 1000\<rparr>)))) ''CUSR0000SA0_2023_2023'') = Some 0"
  by code_simp


end
